theory Spec2Isabelle
  imports Complex_Main "HOL-Library.AList"
begin

section \<open>Immutable collections\<close>

text \<open>
  The list view receives an Immutable.js iterable in its \<^verbatim>\<open>immutableData\<close> prop. The
  collection library is an external dependency; only what the components use of it is
  modelled: the entries of a collection in its own iteration order, \<^verbatim>\<open>isEmpty\<close>,
  \<^verbatim>\<open>slice(0, n)\<close>, \<^verbatim>\<open>set(0, v)\<close>, \<^verbatim>\<open>get\<close>, \<^verbatim>\<open>fromJS\<close> of a three-element array and the
  value equality \<^verbatim>\<open>Immutable.is\<close>.

  A \<^verbatim>\<open>List\<close> is the list of its values, keyed by position. A keyed collection is the list
  of its entries in iteration order: \<open>IMap\<close> is an unordered one (\<^verbatim>\<open>Map\<close>, whose iteration
  order is not part of its value, and the plain object in which the data source keeps
  flat rows), \<open>IOrderedMap\<close> an ordered one (\<^verbatim>\<open>OrderedMap\<close>). In a collection built by
  the library the keys of a keyed collection are distinct (\<open>wellFormed\<close> below). A
  \<open>Leaf\<close> is a value that is not a collection. The \<^verbatim>\<open>immutableData\<close> validator only admits
  iterables, so a \<open>Leaf\<close> never is the top-level collection; the functions below treat it as
  having no entries.
\<close>

type_synonym fn = nat
  \<comment> \<open>a function supplied by the host application, known by its identity only\<close>

datatype key = KIdx nat | KStr string

datatype leaf = LUndefined | LStr string | LFn fn | LNum int

datatype idata =
    Leaf leaf
  | IList "idata list"
  | IMap "(key \<times> idata) list"
  | IOrderedMap "(key \<times> idata) list"

fun entries :: "idata \<Rightarrow> (key \<times> idata) list" where
  "entries (Leaf l) = []"
| "entries (IList xs) = zip (map KIdx [0..<length xs]) xs"
| "entries (IMap es) = es"
| "entries (IOrderedMap es) = es"

definition isEmpty :: "idata \<Rightarrow> bool" where
  "isEmpty d = (entries d = [])"

text \<open>
  A prop declared \<^verbatim>\<open>PropTypes.number\<close>: absent (\<^verbatim>\<open>undefined\<close>), \<^verbatim>\<open>null\<close> (which the prop
  type check lets pass and no default replaces), a number, or one of the three numbers
  that are not real numbers. A finite JavaScript number is a real number here (negative
  zero is zero).
\<close>

datatype number_prop = NUndefined | NNull | NNumber real | NNaN | NInfinity | NNegInfinity

text \<open>
  \<^verbatim>\<open>collection.slice(0, end)\<close> keeps the entries before the position \<^verbatim>\<open>end\<close>, in their
  order. \<open>sliceEnd\<close> is that position, \<open>None\<close> when there is none and the whole collection
  is kept: an absent end and \<^verbatim>\<open>Infinity\<close> keep everything, \<^verbatim>\<open>null\<close> and \<^verbatim>\<open>NaN\<close> convert
  to 0, and a number \<open>x \<ge> 0\<close> is cut to the integer \<open>\<lfloor>x\<rfloor>\<close>. (A negative end counts from the
  back of the collection; the components never pass one, and it is not modelled: it keeps
  nothing here.)
\<close>

fun sliceEnd :: "number_prop \<Rightarrow> nat option" where
  "sliceEnd NUndefined = None"
| "sliceEnd NNull = Some 0"
| "sliceEnd (NNumber x) = Some (nat \<lfloor>x\<rfloor>)"
| "sliceEnd NNaN = Some 0"
| "sliceEnd NInfinity = None"
| "sliceEnd NNegInfinity = Some 0"

fun takeEntries :: "nat \<Rightarrow> idata \<Rightarrow> idata" where
  "takeEntries n (Leaf l) = Leaf l"
| "takeEntries n (IList xs) = IList (take n xs)"
| "takeEntries n (IMap es) = IMap (take n es)"
| "takeEntries n (IOrderedMap es) = IOrderedMap (take n es)"

definition slice0 :: "idata \<Rightarrow> number_prop \<Rightarrow> idata" where
  "slice0 d end = (case sliceEnd end of None \<Rightarrow> d | Some n \<Rightarrow> takeEntries n d)"

text \<open>\<^verbatim>\<open>list.set(0, v)\<close>: position 0 is overwritten; an empty list grows to one element.\<close>

fun set0 :: "idata \<Rightarrow> idata \<Rightarrow> idata" where
  "set0 (IList xs) v = IList (if xs = [] then [v] else xs[0 := v])"
| "set0 (IMap es) v = IMap (AList.update (KIdx 0) v es)"
| "set0 (IOrderedMap es) v = IOrderedMap (AList.update (KIdx 0) v es)"
| "set0 (Leaf l) v = Leaf l"

fun wellFormed :: "idata \<Rightarrow> bool" where
  "wellFormed (Leaf l) = True"
| "wellFormed (IList xs) = list_all wellFormed xs"
| "wellFormed (IMap es) = (distinct (map fst es) \<and> list_all (\<lambda>(k, v). wellFormed v) es)"
| "wellFormed (IOrderedMap es) = (distinct (map fst es) \<and> list_all (\<lambda>(k, v). wellFormed v) es)"

text \<open>
  \<^verbatim>\<open>Immutable.is(a, b)\<close>, the value equality of the library. Values that are not
  collections are compared as values. Two collections are equal only if they are of the
  same kind (indexed, keyed and ordered alike) and of the same size. Ordered collections
  are then compared entry by entry in iteration order. For unordered keyed collections
  every entry \<open>(k, v)\<close> of \<open>b\<close> is compared with what \<open>a\<close> has under \<open>k\<close>, whatever the
  iteration orders are.
\<close>

function immutable_is :: "idata \<Rightarrow> idata \<Rightarrow> bool" where
  "immutable_is (Leaf a) (Leaf b) = (a = b)"
| "immutable_is (IList xs) (IList ys) = list_all2 immutable_is xs ys"
| "immutable_is (IOrderedMap es) (IOrderedMap fs) =
     list_all2 (\<lambda>e f. fst e = fst f \<and> immutable_is (snd e) (snd f)) es fs"
| "immutable_is (IMap es) (IMap fs) =
     (length es = length fs \<and>
      list_all (\<lambda>(k, v). case map_of es k of None \<Rightarrow> False | Some u \<Rightarrow> immutable_is u v) fs)"
| "immutable_is (Leaf a) (IList ys) = False"
| "immutable_is (Leaf a) (IMap fs) = False"
| "immutable_is (Leaf a) (IOrderedMap fs) = False"
| "immutable_is (IList xs) (Leaf b) = False"
| "immutable_is (IList xs) (IMap fs) = False"
| "immutable_is (IList xs) (IOrderedMap fs) = False"
| "immutable_is (IMap es) (Leaf b) = False"
| "immutable_is (IMap es) (IList ys) = False"
| "immutable_is (IMap es) (IOrderedMap fs) = False"
| "immutable_is (IOrderedMap es) (Leaf b) = False"
| "immutable_is (IOrderedMap es) (IList ys) = False"
| "immutable_is (IOrderedMap es) (IMap fs) = False"
  by pat_completeness auto
termination
proof -
  have value_smaller: "size y < Suc (size_list size ys)"
    if "y \<in> set ys" for y :: idata and ys
    using that by (induction ys) auto
  have entry_smaller: "size v < Suc (size_list (size_prod (\<lambda>x. 0) size) fs)"
    if "(k, v) \<in> set fs" for k :: key and v :: idata and fs
    using that by (induction fs) auto
  have snd_smaller: "size (snd f) < Suc (size_list (size_prod (\<lambda>x. 0) size) fs)"
    if "f \<in> set fs" for f :: "key \<times> idata" and fs
    using that entry_smaller[of "fst f" "snd f" fs] by simp
  show ?thesis
    by (relation "measure (\<lambda>(a, b). size b)")
       (auto simp: value_smaller entry_smaller snd_smaller)
qed

text \<open>
  Structural equality, as the spec words what the row-changed callback decides ("structural
  inequality of two collection values"): the structure of a value is its kind together
  with the structures of the values it holds under its keys, in order where the kind is
  ordered and as a mapping from keys where it is not. Two values are structurally equal
  when they have the same structure.
\<close>

datatype "structure" =
    SLeaf leaf
  | SList "structure list"
  | SOrdered "(key \<times> structure) list"
  | SUnordered "key \<Rightarrow> structure option"

fun structure_of :: "idata \<Rightarrow> structure" where
  "structure_of (Leaf l) = SLeaf l"
| "structure_of (IList xs) = SList (map structure_of xs)"
| "structure_of (IOrderedMap es) = SOrdered (map (\<lambda>(k, v). (k, structure_of v)) es)"
| "structure_of (IMap es) = SUnordered (map_of (map (\<lambda>(k, v). (k, structure_of v)) es))"

section \<open>The helper module \<^verbatim>\<open>utils\<close>\<close>

text \<open>
  Modelled from the spec: \<^verbatim>\<open>utils.getKeys\<close>, whose source file is not part of the
  sources at hand. The spec has row keys "enumerated over the flat collection", "in the
  collection's insertion/iteration order".
\<close>

definition getKeys :: "idata \<Rightarrow> key list" where
  "getKeys d = map fst (entries d)"

text \<open>
  Modelled from the spec: \<^verbatim>\<open>utils.getRowIdentities\<close> (source file missing). The spec has
  "row data and keys/identities enumerated per section key, in the collection's
  insertion/iteration order (sections and rows both ordered by the collection's own
  declared order)".
\<close>

definition getRowIdentities :: "idata \<Rightarrow> key list list" where
  "getRowIdentities d = map (\<lambda>(k, section). getKeys section) (entries d)"

text \<open>
  Modelled from the spec: \<^verbatim>\<open>utils.getValueFromKey\<close> (source file missing), the "keyed
  lookup" of the data source callbacks. A key that the collection does not have gives
  \<^verbatim>\<open>undefined\<close>.
\<close>

definition getValueFromKey :: "key \<Rightarrow> idata \<Rightarrow> idata" where
  "getValueFromKey k d = (case map_of (entries d) k of None \<Rightarrow> Leaf LUndefined | Some v \<Rightarrow> v)"

text \<open>
  Modelled from the spec: \<^verbatim>\<open>utils.isEmptyListView\<close> (source file missing). The spec:
  "a collection containing only section headers with no rows counts as empty only if empty
  sections are excluded", that is "empty \<open>\<Longleftrightarrow>\<close> no sections OR (no rows AND sections
  excluded)". An entry that is not a collection is a row. The second argument is the raw
  \<^verbatim>\<open>enableEmptySections\<close> prop (\<open>None\<close> is \<^verbatim>\<open>undefined\<close>, which is falsy).
\<close>

definition isEmptyListView :: "idata \<Rightarrow> bool option \<Rightarrow> bool" where
  "isEmptyListView d enableEmptySections =
     (isEmpty d \<or>
      (enableEmptySections \<noteq> Some True \<and>
       list_all (\<lambda>(k, section). case section of Leaf l \<Rightarrow> False | _ \<Rightarrow> isEmpty section)
         (entries d)))"

text \<open>
  Modelled from the spec: \<^verbatim>\<open>utils.UNITARY_LIST\<close> (source file missing), "a one-element
  sequence". Its element is overwritten before it is ever displayed.
\<close>

definition UNITARY_LIST :: idata where
  "UNITARY_LIST = IList [Leaf LUndefined]"

section \<open>Props\<close>

text \<open>
  The props a component receives, typed as the \<^verbatim>\<open>propTypes\<close> declare them. \<open>None\<close> is
  \<^verbatim>\<open>undefined\<close> (an absent prop). The record \<open>lv_props\<close> holds the props that
  \<^verbatim>\<open>ImmutableListView.render\<close> forwards to the list widget; \<open>props\<close> adds the five that it
  keeps for itself, so its rest-destructuring
  \<^verbatim>\<open>{ immutableData, renderEmpty, renderEmptyInList, rowsDuringInteraction,
  sectionHeaderHasChanged, ...passThroughProps }\<close> is \<open>lv_props.truncate\<close>.

  \<open>otherProps\<close> holds every prop that neither component reads by name (separator, header
  and footer renderers, page size, scroll callbacks, \<^verbatim>\<open>contentContainerStyle\<close>,
  \<^verbatim>\<open>removeClippedSubviews\<close>, ...), by prop name.
\<close>

datatype pval = PNum int | PBool bool | PStr string | PFn fn

datatype renderer = RString string | RFunc fn
  \<comment> \<open>\<^verbatim>\<open>PropTypes.oneOfType([PropTypes.string, PropTypes.func])\<close>\<close>

datatype row_renderer =
    HostRow fn
      \<comment> \<open>a \<^verbatim>\<open>renderRow\<close> function of the host\<close>
  | EmptyTextRow
      \<comment> \<open>\<^verbatim>\<open>() => this.renderRow()\<close> of an \<^verbatim>\<open>EmptyListView\<close>\<close>
  | RenderEmptyInListRow fn
      \<comment> \<open>\<^verbatim>\<open>() => renderEmptyInList(this.props)\<close> of an \<^verbatim>\<open>ImmutableListView\<close>\<close>

datatype section_pred = NeverChanged | HostPred fn
  \<comment> \<open>\<open>NeverChanged\<close> is the default \<^verbatim>\<open>(prevSectionData, nextSectionData) => false\<close>\<close>

record lv_props =
  renderRow :: "row_renderer option"
  renderSectionHeader :: "fn option"
  enableEmptySections :: "bool option"
  emptyText :: "string option"
  otherProps :: "string \<rightharpoonup> pval"

record props = lv_props +
  immutableData :: idata
  renderEmpty :: "renderer option"
  renderEmptyInList :: "renderer option"
  rowsDuringInteraction :: number_prop
  sectionHeaderHasChanged :: "section_pred option"

text \<open>JavaScript truthiness of a string-or-function prop: the empty string is falsy.\<close>

fun truthy :: "renderer option \<Rightarrow> bool" where
  "truthy None = False"
| "truthy (Some (RString s)) = (s \<noteq> [])"
| "truthy (Some (RFunc f)) = True"

text \<open>
  \<^verbatim>\<open>rowsDuringInteraction >= 0\<close>, as JavaScript compares: \<^verbatim>\<open>undefined\<close> and \<^verbatim>\<open>NaN\<close> convert
  to \<^verbatim>\<open>NaN\<close>, for which every comparison is false, and \<^verbatim>\<open>null\<close> converts to 0.
\<close>

fun ge0 :: "number_prop \<Rightarrow> bool" where
  "ge0 NUndefined = False"
| "ge0 NNull = True"
| "ge0 (NNumber x) = (0 \<le> x)"
| "ge0 NNaN = False"
| "ge0 NInfinity = True"
| "ge0 NNegInfinity = False"

section \<open>The data source of the list widget\<close>

text \<open>
  \<^verbatim>\<open>ListView.DataSource\<close> belongs to the list widget, an external dependency. A snapshot is
  modelled by what its two clone operations store: the data blob, the section and row
  identities, and the per-row dirty flags that the widget computes against the snapshot
  it was cloned from, with the callbacks given in the component's initial state
  (\<^verbatim>\<open>rowHasChanged\<close>, \<^verbatim>\<open>getRowData\<close>). \<^verbatim>\<open>cloneWithRows\<close> files the rows under the single
  section \<^verbatim>\<open>s1\<close>.
\<close>

record data_source =
  dataBlob :: "idata option"
  sectionIdentities :: "key list"
  rowIdentities :: "key list list"
  dirtyRows :: "bool list list"

definition rowHasChanged :: "idata \<Rightarrow> idata \<Rightarrow> bool" where
  "rowHasChanged prevRowData nextRowData = (\<not> immutable_is prevRowData nextRowData)"

definition getRowData :: "idata option \<Rightarrow> key \<Rightarrow> key \<Rightarrow> idata" where
  "getRowData blob sectionID rowID =
     (case blob of None \<Rightarrow> Leaf LUndefined
      | Some b \<Rightarrow> getValueFromKey rowID (getValueFromKey sectionID b))"

definition newDataSource :: data_source where
  "newDataSource = \<lparr>dataBlob = None, sectionIdentities = [], rowIdentities = [], dirtyRows = []\<rparr>"

definition rowIsDirty :: "data_source \<Rightarrow> idata \<Rightarrow> key \<Rightarrow> key \<Rightarrow> bool" where
  "rowIsDirty prev blob sectionID rowID =
     (sectionID \<notin> set (sectionIdentities prev) \<or>
      (case map_of (rev (zip (sectionIdentities prev) (rowIdentities prev))) sectionID of
         None \<Rightarrow> True
       | Some prevRows \<Rightarrow> rowID \<notin> set prevRows) \<or>
      rowHasChanged (getRowData (dataBlob prev) sectionID rowID)
                    (getRowData (Some blob) sectionID rowID))"

definition cloneWithRowsAndSections ::
  "data_source \<Rightarrow> idata \<Rightarrow> key list \<Rightarrow> key list list \<Rightarrow> data_source" where
  "cloneWithRowsAndSections prev blob sectionIDs rowIDs =
     \<lparr>dataBlob = Some blob, sectionIdentities = sectionIDs, rowIdentities = rowIDs,
      dirtyRows = map (\<lambda>(sectionID, rows). map (rowIsDirty prev blob sectionID) rows)
                      (zip sectionIDs rowIDs)\<rparr>"

definition cloneWithRows :: "data_source \<Rightarrow> idata \<Rightarrow> key list \<Rightarrow> data_source" where
  "cloneWithRows prev blob rowIDs =
     cloneWithRowsAndSections prev (IMap [(KStr ''s1'', blob)]) [KStr ''s1''] [rowIDs]"

section \<open>ImmutableListView: deriving the state from the props\<close>

text \<open>
  The component instance: the liveness flag \<^verbatim>\<open>this.canSetState\<close> (\<^verbatim>\<open>undefined\<close>, hence
  falsy, until \<^verbatim>\<open>componentWillMount\<close>), the two fields of \<^verbatim>\<open>this.state\<close>, the callbacks
  handed to \<^verbatim>\<open>InteractionManager.runAfterInteractions\<close> that have not run yet (each is
  \<^verbatim>\<open>() => this.setStateFromProps(props, true)\<close>, kept as the props it captured, oldest
  first), and the history of the \<^verbatim>\<open>setState\<close> calls made so far (oldest first).
\<close>

record component =
  canSetState :: bool
  dataSource :: data_source
  interactionOngoing :: bool
  pending :: "props list"
  commits :: "(data_source \<times> bool) list"

definition initialComponent :: component where
  "initialComponent =
     \<lparr>canSetState = False, dataSource = newDataSource, interactionOngoing = True,
      pending = [], commits = []\<rparr>"

definition setState :: "data_source \<Rightarrow> bool \<Rightarrow> component \<Rightarrow> component" where
  "setState ds ongoing c =
     c\<lparr>dataSource := ds, interactionOngoing := ongoing, commits := commits c @ [(ds, ongoing)]\<rparr>"

definition shouldDisplayPartialData :: "props \<Rightarrow> bool \<Rightarrow> component \<Rightarrow> bool" where
  "shouldDisplayPartialData p interactionHasJustFinished c =
     (ge0 (rowsDuringInteraction p) \<and> interactionOngoing c \<and> \<not> interactionHasJustFinished)"

definition displayData :: "props \<Rightarrow> bool \<Rightarrow> component \<Rightarrow> idata" where
  "displayData p interactionHasJustFinished c =
     (if shouldDisplayPartialData p interactionHasJustFinished c
      then slice0 (immutableData p) (rowsDuringInteraction p)
      else immutableData p)"

definition updatedDataSource :: "props \<Rightarrow> bool \<Rightarrow> component \<Rightarrow> data_source" where
  "updatedDataSource p interactionHasJustFinished c =
     (let d = displayData p interactionHasJustFinished c in
      if renderSectionHeader p \<noteq> None
      then cloneWithRowsAndSections (dataSource c) d (getKeys d) (getRowIdentities d)
      else cloneWithRows (dataSource c) d (getKeys d))"

definition setStateFromProps :: "props \<Rightarrow> bool \<Rightarrow> component \<Rightarrow> component" where
  "setStateFromProps p interactionHasJustFinished c =
     (if \<not> canSetState c then c
      else setState (updatedDataSource p interactionHasJustFinished c)
             (if interactionHasJustFinished then False else interactionOngoing c) c)"

definition setStateFromPropsAfterInteraction :: "props \<Rightarrow> component \<Rightarrow> component" where
  "setStateFromPropsAfterInteraction p c =
     (let c' = setStateFromProps p False c in
      if ge0 (rowsDuringInteraction p) then c'\<lparr>pending := pending c' @ [p]\<rparr> else c')"

definition componentWillMount :: "props \<Rightarrow> component \<Rightarrow> component" where
  "componentWillMount p c = setStateFromPropsAfterInteraction p (c\<lparr>canSetState := True\<rparr>)"

definition componentWillReceiveProps :: "props \<Rightarrow> component \<Rightarrow> component" where
  "componentWillReceiveProps newProps c = setStateFromPropsAfterInteraction newProps c"

definition componentWillUnmount :: "component \<Rightarrow> component" where
  "componentWillUnmount c = c\<lparr>canSetState := False\<rparr>"

text \<open>The interaction manager runs the oldest callback that is still waiting.\<close>

definition runDeferred :: "component \<Rightarrow> component" where
  "runDeferred c =
     (case pending c of [] \<Rightarrow> c
      | p # ps \<Rightarrow> setStateFromProps p True (c\<lparr>pending := ps\<rparr>))"

datatype event = Mount props | ReceiveProps props | Unmount | InteractionsDone

fun step :: "component \<Rightarrow> event \<Rightarrow> component" where
  "step c (Mount p) = componentWillMount p c"
| "step c (ReceiveProps p) = componentWillReceiveProps p c"
| "step c Unmount = componentWillUnmount c"
| "step c InteractionsDone = runDeferred c"

section \<open>Rendering\<close>

text \<open>
  What a \<^verbatim>\<open>render\<close> method returns: a text element (with the extra style placed after
  \<^verbatim>\<open>styles.emptyText\<close>, and its child), whatever a host function returned, an element of one
  of the two components with the props given to it, or the list widget with its data
  source and props.
\<close>

datatype element =
    TextEl "pval option" "string option"
  | HostEl nat
  | EmptyListViewEl props
  | ImmutableListViewEl props
  | ListViewEl data_source lv_props

text \<open>
  A host render function is called with the props; \<open>host f p\<close> is what \<open>f\<close> returns
  there: \<open>Some e\<close> for a renderable (truthy) value, \<open>None\<close> for a falsy one such as
  \<^verbatim>\<open>null\<close>.
\<close>

type_synonym host = "fn \<Rightarrow> props \<Rightarrow> nat option"

definition ImmutableListView_renderEmpty :: "host \<Rightarrow> props \<Rightarrow> element option" where
  "ImmutableListView_renderEmpty host p =
     (if (truthy (renderEmpty p) \<or> truthy (renderEmptyInList p)) \<and>
         isEmptyListView (immutableData p) (enableEmptySections p)
      then
        if truthy (renderEmpty p) then
          (case renderEmpty p of
             Some (RString s) \<Rightarrow> Some (TextEl (otherProps p ''contentContainerStyle'') (Some s))
           | Some (RFunc f) \<Rightarrow> map_option HostEl (host f p)
           | None \<Rightarrow> None)
        else if truthy (renderEmptyInList p) then
          (case renderEmptyInList p of
             Some (RString s) \<Rightarrow> Some (EmptyListViewEl (p\<lparr>renderRow := None, emptyText := Some s\<rparr>))
           | Some (RFunc f) \<Rightarrow> Some (EmptyListViewEl (p\<lparr>renderRow := Some (RenderEmptyInListRow f)\<rparr>))
           | None \<Rightarrow> None)
        else None
      else None)"

definition ImmutableListView_render :: "host \<Rightarrow> props \<Rightarrow> component \<Rightarrow> element" where
  "ImmutableListView_render host p c =
     (case ImmutableListView_renderEmpty host p of
        Some e \<Rightarrow> e
      | None \<Rightarrow> ListViewEl (dataSource c) (lv_props.truncate p))"

subsection \<open>EmptyListView\<close>

record empty_state =
  listData :: idata

definition initialEmptyState :: empty_state where
  "initialEmptyState = \<lparr>listData = UNITARY_LIST\<rparr>"

fun leaf_of_renderer :: "renderer option \<Rightarrow> idata" where
  "leaf_of_renderer None = Leaf LUndefined"
| "leaf_of_renderer (Some (RString s)) = Leaf (LStr s)"
| "leaf_of_renderer (Some (RFunc f)) = Leaf (LFn f)"

fun leaf_of_text :: "string option \<Rightarrow> idata" where
  "leaf_of_text None = Leaf LUndefined"
| "leaf_of_text (Some s) = Leaf (LStr s)"

text \<open>\<^verbatim>\<open>Immutable.fromJS([renderEmpty, renderEmptyInList, emptyText])\<close>\<close>

definition fromJS3 :: "props \<Rightarrow> idata" where
  "fromJS3 p =
     IList [leaf_of_renderer (renderEmpty p), leaf_of_renderer (renderEmptyInList p),
            leaf_of_text (emptyText p)]"

definition setListDataFromProps :: "props \<Rightarrow> empty_state \<Rightarrow> empty_state" where
  "setListDataFromProps p st = st\<lparr>listData := set0 (listData st) (fromJS3 p)\<rparr>"

text \<open>
  The state of an \<^verbatim>\<open>EmptyListView\<close> that was mounted with props \<open>p\<close> and then received
  the props \<open>ps\<close>, one after the other; \<open>currentProps\<close> is what \<^verbatim>\<open>this.props\<close> is then.
\<close>

definition emptyListViewState :: "props \<Rightarrow> props list \<Rightarrow> empty_state" where
  "emptyListViewState p ps = foldl (\<lambda>st q. setListDataFromProps q st) initialEmptyState (p # ps)"

definition currentProps :: "props \<Rightarrow> props list \<Rightarrow> props" where
  "currentProps p ps = last (p # ps)"

definition EmptyListView_renderRow :: "props \<Rightarrow> element" where
  "EmptyListView_renderRow p = TextEl None (emptyText p)"

text \<open>
  \<^verbatim>\<open>EmptyListView.render\<close>. The rest-destructuring removes four props; the JSX then puts the
  default row renderer first, the remaining props over it, and \<^verbatim>\<open>immutableData\<close> last.
\<close>

definition EmptyListView_passThroughProps :: "props \<Rightarrow> props" where
  "EmptyListView_passThroughProps p =
     p\<lparr>renderEmpty := None, renderEmptyInList := None, renderSectionHeader := None,
       emptyText := None\<rparr>"

definition EmptyListView_render :: "props \<Rightarrow> empty_state \<Rightarrow> element" where
  "EmptyListView_render p st =
     (let passThroughProps = EmptyListView_passThroughProps p in
      ImmutableListViewEl
        (passThroughProps
           \<lparr>renderRow := (case renderRow passThroughProps of
                            None \<Rightarrow> Some EmptyTextRow | Some r \<Rightarrow> Some r),
            immutableData := listData st\<rparr>))"

subsection \<open>Default props and mounting\<close>

text \<open>
  When an element is created, each prop that is \<^verbatim>\<open>undefined\<close> takes its value from the
  component's \<^verbatim>\<open>defaultProps\<close>. \<^verbatim>\<open>ListView.defaultProps\<close> belongs to the list widget and is a
  parameter here (\<open>lvd\<close>); it only has props that the components do not read by name.
\<close>

definition orDefault :: "'a option \<Rightarrow> 'a \<Rightarrow> 'a option" where
  "orDefault v d = (case v of None \<Rightarrow> Some d | Some x \<Rightarrow> Some x)"

definition ImmutableListView_defaultProps :: "(string \<rightharpoonup> pval) \<Rightarrow> props \<Rightarrow> props" where
  "ImmutableListView_defaultProps lvd p =
     p\<lparr>sectionHeaderHasChanged := orDefault (sectionHeaderHasChanged p) NeverChanged,
       enableEmptySections := orDefault (enableEmptySections p) True,
       renderEmptyInList := orDefault (renderEmptyInList p) (RString ''No data.''),
       otherProps := (lvd(''removeClippedSubviews'' \<mapsto> PBool False)) ++ otherProps p\<rparr>"

definition EmptyListView_defaultProps :: "(string \<rightharpoonup> pval) \<Rightarrow> props \<Rightarrow> props" where
  "EmptyListView_defaultProps lvd p =
     p\<lparr>emptyText := orDefault (emptyText p) ''No data.'',
       otherProps := lvd ++ otherProps p\<rparr>"

text \<open>
  Mounting an element of one of the two components: defaults, \<^verbatim>\<open>componentWillMount\<close>, then
  the first \<^verbatim>\<open>render\<close>. The other elements are not components of this package.
\<close>

fun mountElement :: "host \<Rightarrow> (string \<rightharpoonup> pval) \<Rightarrow> element \<Rightarrow> element option" where
  "mountElement host lvd (ImmutableListViewEl q) =
     (let p = ImmutableListView_defaultProps lvd q in
      Some (ImmutableListView_render host p (componentWillMount p initialComponent)))"
| "mountElement host lvd (EmptyListViewEl q) =
     (let p = EmptyListView_defaultProps lvd q in
      Some (EmptyListView_render p (setListDataFromProps p initialEmptyState)))"
| "mountElement host lvd e = None"

text \<open>
  Mounting repeatedly until an element of the host platform is reached, and the number
  of \<^verbatim>\<open>EmptyListView\<close> instances created on the way. \<open>None\<close>: the fuel did not suffice.
\<close>

fun mountAll :: "host \<Rightarrow> (string \<rightharpoonup> pval) \<Rightarrow> nat \<Rightarrow> element \<Rightarrow> (element \<times> nat) option" where
  "mountAll host lvd fuel e =
     (case mountElement host lvd e of
        None \<Rightarrow> Some (e, 0)
      | Some e' \<Rightarrow>
          (case fuel of 0 \<Rightarrow> None
           | Suc n \<Rightarrow> map_option (\<lambda>(r, k). (r, (case e of EmptyListViewEl q \<Rightarrow> Suc k | _ \<Rightarrow> k)))
                        (mountAll host lvd n e')))"

subsection \<open>Observing elements\<close>

fun rendersListWidget :: "element \<Rightarrow> bool" where
  "rendersListWidget (ListViewEl ds q) = True"
| "rendersListWidget e = False"

fun rendersPlaceholder :: "element \<Rightarrow> bool" where
  "rendersPlaceholder (EmptyListViewEl q) = True"
| "rendersPlaceholder e = False"

fun elementProps :: "element \<Rightarrow> props option" where
  "elementProps (EmptyListViewEl q) = Some q"
| "elementProps (ImmutableListViewEl q) = Some q"
| "elementProps e = None"

section \<open>Example configurations\<close>

text \<open>
  Props as a host passes them when it sets nothing but the data and a row renderer, and
  a component that is mounted and has not derived anything yet. The concrete instances
  of the theorems below are stated on these.
\<close>

definition basicProps :: "idata \<Rightarrow> props" where
  "basicProps d =
     \<lparr>renderRow = Some (HostRow 0), renderSectionHeader = None, enableEmptySections = None,
      emptyText = None, otherProps = Map.empty, immutableData = d, renderEmpty = None,
      renderEmptyInList = None, rowsDuringInteraction = NUndefined, sectionHeaderHasChanged = None\<rparr>"

definition threeRows :: idata where
  "threeRows = IList [Leaf (LNum 1), Leaf (LNum 2), Leaf (LNum 3)]"

definition twoSections :: idata where
  "twoSections =
     IMap [(KStr ''b'', IList [Leaf (LNum 1), Leaf (LNum 2)]), (KStr ''a'', IList [Leaf (LNum 3)])]"

definition liveComponent :: component where
  "liveComponent = initialComponent\<lparr>canSetState := True\<rparr>"

definition noHost :: host where
  "noHost f p = None"

definition noDefaults :: "string \<rightharpoonup> pval" where
  "noDefaults = Map.empty"

definition nullRows :: props where
  "nullRows = (basicProps threeRows)\<lparr>rowsDuringInteraction := NNull\<rparr>"

definition emptyStringInList :: props where
  "emptyStringInList = (basicProps (IList []))\<lparr>renderEmptyInList := Some (RString [])\<rparr>"

definition withSectionHeader :: props where
  "withSectionHeader = (basicProps threeRows)\<lparr>renderSectionHeader := Some 7\<rparr>"

definition onlyEmptySections :: props where
  "onlyEmptySections =
     (basicProps (IMap [(KStr ''a'', IList [])]))
       \<lparr>enableEmptySections := Some False, rowsDuringInteraction := NNumber 0\<rparr>"

section \<open>Properties of the state derivation\<close>

lemma take_upt0: "take k [0..<n] = [0..<min n k]"
  by (cases "k \<le> n") (simp_all add: min_def)

lemma entries_takeEntries: "entries (takeEntries n d) = take n (entries d)"
  by (cases d) (simp_all add: take_zip take_map take_upt0)

lemma entries_slice0:
  "entries (slice0 d end) = (case sliceEnd end of None \<Rightarrow> entries d | Some n \<Rightarrow> take n (entries d))"
  by (simp add: slice0_def entries_takeEntries split: option.splits)

text \<open>
  With \<^verbatim>\<open>rowsDuringInteraction = null\<close> the comparison \<^verbatim>\<open>null >= 0\<close> is true: while an
  interaction is ongoing the data source is built from \<^verbatim>\<open>slice(0, null)\<close>, which has no
  entries, and not from the whole collection.
\<close>

theorem null_rows_take_partial_branch:
  "rowsDuringInteraction nullRows = NNull \<and> immutableData nullRows = threeRows \<and>
   canSetState liveComponent \<and> interactionOngoing liveComponent \<and>
   displayData nullRows False liveComponent = IList [] \<and>
   dataBlob (dataSource (setStateFromProps nullRows False liveComponent)) =
     Some (IMap [(KStr ''s1'', IList [])])"
  by (simp add: nullRows_def basicProps_def threeRows_def liveComponent_def initialComponent_def
        displayData_def shouldDisplayPartialData_def slice0_def setStateFromProps_def
        setState_def updatedDataSource_def cloneWithRows_def cloneWithRowsAndSections_def
        Let_def)

text \<open>
  Claim C2, amended. A derivation on a live component builds the data source from
  \<open>displayData\<close>. The partial branch is taken exactly when \<^verbatim>\<open>rowsDuringInteraction >= 0\<close>
  holds as JavaScript compares (a number \<open>x \<ge> 0\<close>, \<^verbatim>\<open>Infinity\<close>, or \<^verbatim>\<open>null\<close>, which counts
  as 0), an interaction is ongoing and it has not just finished. Then \<open>displayData\<close> is
  \<^verbatim>\<open>slice(0, rowsDuringInteraction)\<close>: for a number \<open>x\<close> its entries are the first \<open>\<lfloor>x\<rfloor>\<close>
  entries of the collection in the collection's order (the first \<open>n\<close> for an integer
  \<open>n\<close>), for \<^verbatim>\<open>null\<close> it has no entries, for \<^verbatim>\<open>Infinity\<close> it is the whole collection. In
  every other case (\<^verbatim>\<open>rowsDuringInteraction\<close> absent, \<^verbatim>\<open>NaN\<close> or negative, no interaction
  ongoing, or the interaction just finished) it is the whole collection.
\<close>

theorem displayData_is_prefix_or_whole:
  "canSetState c \<Longrightarrow>
   (let d = displayData p fin c; ds = dataSource (setStateFromProps p fin c);
        r = rowsDuringInteraction p in
      dataBlob ds = Some (if renderSectionHeader p \<noteq> None then d else IMap [(KStr ''s1'', d)]) \<and>
      (ge0 r \<longleftrightarrow> r = NNull \<or> r = NInfinity \<or> (\<exists>x. r = NNumber x \<and> 0 \<le> x)) \<and>
      (ge0 r \<and> interactionOngoing c \<and> \<not> fin \<longrightarrow>
         d = slice0 (immutableData p) r \<and>
         (\<forall>x. r = NNumber x \<longrightarrow> entries d = take (nat \<lfloor>x\<rfloor>) (entries (immutableData p))) \<and>
         (\<forall>n. r = NNumber (of_int n) \<longrightarrow> entries d = take (nat n) (entries (immutableData p))) \<and>
         (r = NNull \<longrightarrow> entries d = []) \<and>
         (r = NInfinity \<longrightarrow> d = immutableData p)) \<and>
      (\<not> ge0 r \<or> \<not> interactionOngoing c \<or> fin \<longrightarrow> d = immutableData p))"
proof -
  assume live: "canSetState c"
  let ?r = "rowsDuringInteraction p"
  have blob: "dataBlob (dataSource (setStateFromProps p fin c)) =
      Some (if renderSectionHeader p \<noteq> None then displayData p fin c
            else IMap [(KStr ''s1'', displayData p fin c)])"
    using live
    by (simp add: setStateFromProps_def setState_def updatedDataSource_def cloneWithRows_def
          cloneWithRowsAndSections_def Let_def)
  have g: "ge0 ?r \<longleftrightarrow> ?r = NNull \<or> ?r = NInfinity \<or> (\<exists>x. ?r = NNumber x \<and> 0 \<le> x)"
    by (cases ?r) simp_all
  have part: "displayData p fin c = slice0 (immutableData p) ?r"
    if "ge0 ?r \<and> interactionOngoing c \<and> \<not> fin"
    using that by (simp add: displayData_def shouldDisplayPartialData_def)
  have num: "entries (slice0 (immutableData p) ?r) = take (nat \<lfloor>x\<rfloor>) (entries (immutableData p))"
    if "?r = NNumber x" for x
    using that by (simp add: entries_slice0)
  have int: "entries (slice0 (immutableData p) ?r) = take (nat n) (entries (immutableData p))"
    if "?r = NNumber (of_int n)" for n
    using that by (simp add: entries_slice0)
  have null: "entries (slice0 (immutableData p) ?r) = []" if "?r = NNull"
    using that by (simp add: entries_slice0)
  have inf: "slice0 (immutableData p) ?r = immutableData p" if "?r = NInfinity"
    using that by (simp add: slice0_def)
  have whole: "displayData p fin c = immutableData p"
    if "\<not> ge0 ?r \<or> \<not> interactionOngoing c \<or> fin"
    using that by (auto simp: displayData_def shouldDisplayPartialData_def)
  have P: "ge0 ?r \<and> interactionOngoing c \<and> \<not> fin \<longrightarrow>
         displayData p fin c = slice0 (immutableData p) ?r \<and>
         (\<forall>x. ?r = NNumber x \<longrightarrow>
              entries (displayData p fin c) = take (nat \<lfloor>x\<rfloor>) (entries (immutableData p))) \<and>
         (\<forall>n. ?r = NNumber (of_int n) \<longrightarrow>
              entries (displayData p fin c) = take (nat n) (entries (immutableData p))) \<and>
         (?r = NNull \<longrightarrow> entries (displayData p fin c) = []) \<and>
         (?r = NInfinity \<longrightarrow> displayData p fin c = immutableData p)"
  proof
    assume h: "ge0 ?r \<and> interactionOngoing c \<and> \<not> fin"
    show "displayData p fin c = slice0 (immutableData p) ?r \<and>
         (\<forall>x. ?r = NNumber x \<longrightarrow>
              entries (displayData p fin c) = take (nat \<lfloor>x\<rfloor>) (entries (immutableData p))) \<and>
         (\<forall>n. ?r = NNumber (of_int n) \<longrightarrow>
              entries (displayData p fin c) = take (nat n) (entries (immutableData p))) \<and>
         (?r = NNull \<longrightarrow> entries (displayData p fin c) = []) \<and>
         (?r = NInfinity \<longrightarrow> displayData p fin c = immutableData p)"
      unfolding part[OF h] using num int null inf by blast
  qed
  have W: "\<not> ge0 ?r \<or> \<not> interactionOngoing c \<or> fin \<longrightarrow>
             displayData p fin c = immutableData p"
    using whole by blast
  show ?thesis
    unfolding Let_def by (intro conjI blob g P W)
qed

theorem displayData_is_prefix_or_whole_witness:
  "canSetState liveComponent \<and>
   entries (displayData ((basicProps threeRows)\<lparr>rowsDuringInteraction := NNumber 2\<rparr>) False liveComponent) =
     [(KIdx 0, Leaf (LNum 1)), (KIdx 1, Leaf (LNum 2))] \<and>
   displayData ((basicProps threeRows)\<lparr>rowsDuringInteraction := NNumber 2\<rparr>) True liveComponent = threeRows"
  using displayData_is_prefix_or_whole
          [of liveComponent "(basicProps threeRows)\<lparr>rowsDuringInteraction := NNumber 2\<rparr>" False]
        displayData_is_prefix_or_whole
          [of liveComponent "(basicProps threeRows)\<lparr>rowsDuringInteraction := NNumber 2\<rparr>" True]
  by (simp add: liveComponent_def initialComponent_def basicProps_def threeRows_def Let_def
        displayData_def shouldDisplayPartialData_def slice0_def numeral_2_eq_2 upt_rec)

lemma setStateFromProps_dead: "\<not> canSetState c \<Longrightarrow> setStateFromProps p fin c = c"
  by (simp add: setStateFromProps_def)

lemma runDeferred_dead:
  "\<not> canSetState c \<Longrightarrow>
     canSetState (runDeferred c) = canSetState c \<and> dataSource (runDeferred c) = dataSource c \<and>
     interactionOngoing (runDeferred c) = interactionOngoing c \<and>
     commits (runDeferred c) = commits c"
  by (simp add: runDeferred_def setStateFromProps_def split: list.splits)

lemma runDeferred_dead_n:
  "\<not> canSetState c \<Longrightarrow>
     \<not> canSetState ((runDeferred ^^ n) c) \<and>
     dataSource ((runDeferred ^^ n) c) = dataSource c \<and>
     interactionOngoing ((runDeferred ^^ n) c) = interactionOngoing c \<and>
     commits ((runDeferred ^^ n) c) = commits c"
  by (induction n) (simp_all add: runDeferred_dead)

text \<open>
  Claim C3. Once \<^verbatim>\<open>canSetState\<close> is false, \<^verbatim>\<open>setStateFromProps\<close> returns at once, for
  every props snapshot and either value of its flag: the component is unchanged and no
  \<^verbatim>\<open>setState\<close> call is made. \<^verbatim>\<open>componentWillUnmount\<close> clears the flag, so after it any
  number of deferred callbacks (whatever props they captured) may run without changing
  \<^verbatim>\<open>dataSource\<close> or \<^verbatim>\<open>interactionOngoing\<close> and without a \<^verbatim>\<open>setState\<close> call.
\<close>

theorem deferred_after_unmount_is_noop:
  "(\<not> canSetState c \<longrightarrow> setStateFromProps p fin c = c) \<and>
   (let u = componentWillUnmount c; r = (runDeferred ^^ n) u in
      \<not> canSetState u \<and> dataSource r = dataSource c \<and>
      interactionOngoing r = interactionOngoing c \<and> commits r = commits c)"
  using runDeferred_dead_n[of "componentWillUnmount c" n]
  by (simp add: setStateFromProps_dead Let_def componentWillUnmount_def)

theorem deferred_after_unmount_is_noop_witness:
  "\<not> canSetState (componentWillUnmount (liveComponent\<lparr>pending := [basicProps threeRows]\<rparr>)) \<and>
   setStateFromProps (basicProps threeRows) True
       (componentWillUnmount (liveComponent\<lparr>pending := [basicProps threeRows]\<rparr>)) =
     componentWillUnmount (liveComponent\<lparr>pending := [basicProps threeRows]\<rparr>) \<and>
   commits (runDeferred (componentWillUnmount (liveComponent\<lparr>pending := [basicProps threeRows]\<rparr>))) = []"
  using deferred_after_unmount_is_noop
          [of "componentWillUnmount (liveComponent\<lparr>pending := [basicProps threeRows]\<rparr>)"
              "basicProps threeRows" True 0]
        deferred_after_unmount_is_noop
          [of "liveComponent\<lparr>pending := [basicProps threeRows]\<rparr>" "basicProps threeRows" True 1]
  by (simp add: componentWillUnmount_def liveComponent_def initialComponent_def Let_def)

lemma step_keeps_finished: "\<not> interactionOngoing c \<Longrightarrow> \<not> interactionOngoing (step c e)"
  by (cases e)
     (auto simp: componentWillMount_def componentWillReceiveProps_def componentWillUnmount_def
        runDeferred_def setStateFromPropsAfterInteraction_def setStateFromProps_def setState_def
        Let_def split: list.splits)

lemma steps_keep_finished:
  "\<not> interactionOngoing c \<Longrightarrow> \<not> interactionOngoing (foldl step c es)"
  by (induction es arbitrary: c) (simp_all add: step_keeps_finished)

lemma runDeferred_live:
  "canSetState c \<Longrightarrow>
     canSetState (runDeferred c) \<and> pending (runDeferred c) = tl (pending c) \<and>
     (\<exists>more. commits (runDeferred c) = commits c @ more)"
  by (cases "pending c") (simp_all add: runDeferred_def setStateFromProps_def setState_def)

lemma runDeferred_live_n:
  "canSetState c \<Longrightarrow>
     canSetState ((runDeferred ^^ n) c) \<and> pending ((runDeferred ^^ n) c) = drop n (pending c) \<and>
     (\<exists>more. commits ((runDeferred ^^ n) c) = commits c @ more)"
proof (induction n)
  case 0
  then show ?case by simp
next
  case (Suc n)
  let ?r = "(runDeferred ^^ n) c"
  from Suc have r: "canSetState ?r" "pending ?r = drop n (pending c)"
    and "\<exists>more. commits ?r = commits c @ more" by simp_all
  then obtain m1 where m1: "commits ?r = commits c @ m1" by blast
  from runDeferred_live[OF r(1)] obtain m2 where
    s: "canSetState (runDeferred ?r)" "pending (runDeferred ?r) = tl (pending ?r)"
       "commits (runDeferred ?r) = commits ?r @ m2" by blast
  have "commits (runDeferred ?r) = commits c @ (m1 @ m2)" using s(3) m1 by simp
  then show ?case using s r by (auto simp: drop_Suc tl_drop)
qed

text \<open>
  Claim C4. On a live component, a props update \<open>p\<close> with \<^verbatim>\<open>rowsDuringInteraction >= 0\<close>
  commits its synchronous (possibly partial) derivation at once and only queues the
  full one: the deferred derivation for \<open>p\<close> is committed later, after the callbacks
  queued before it, so the synchronous commit precedes it in the \<^verbatim>\<open>setState\<close> history.
  The deferred derivation uses the whole collection and clears \<^verbatim>\<open>interactionOngoing\<close>;
  from then on, whatever happens to the component, every derivation on \<open>p\<close> uses the
  whole collection.
\<close>

theorem partial_then_full_never_back:
  "canSetState c \<Longrightarrow> ge0 (rowsDuringInteraction p) \<Longrightarrow>
   (let c1 = componentWillReceiveProps p c;
        cn = (runDeferred ^^ length (pending c)) c1;
        c2 = runDeferred cn in
      pending c1 = pending c @ [p] \<and>
      commits c1 = commits c @ [(updatedDataSource p False c, interactionOngoing c)] \<and>
      pending cn = [p] \<and>
      (\<exists>more. commits c2 = commits c1 @ more @ [(updatedDataSource p True cn, False)]) \<and>
      displayData p True cn = immutableData p \<and>
      \<not> interactionOngoing c2 \<and>
      (\<forall>es fin. displayData p fin (foldl step c2 es) = immutableData p))"
proof -
  assume a: "canSetState c" "ge0 (rowsDuringInteraction p)"
  define c1 where "c1 = componentWillReceiveProps p c"
  define cn where "cn = (runDeferred ^^ length (pending c)) c1"
  define c2 where "c2 = runDeferred cn"
  have c1: "c1 = (setState (updatedDataSource p False c) (interactionOngoing c) c)
                   \<lparr>pending := pending c @ [p]\<rparr>"
    using a by (simp add: c1_def componentWillReceiveProps_def setStateFromPropsAfterInteraction_def
        setStateFromProps_def setState_def Let_def)
  have l1: "commits c1 = commits c @ [(updatedDataSource p False c, interactionOngoing c)]"
    by (simp add: c1 setState_def)
  have l2: "pending c1 = pending c @ [p]" by (simp add: c1 setState_def)
  have live1: "canSetState c1" using a by (simp add: c1 setState_def)
  from runDeferred_live_n[OF live1, of "length (pending c)"] obtain more where
    n: "canSetState cn" "pending cn = [p]" "commits cn = commits c1 @ more"
    unfolding cn_def[symmetric] using l2 by auto
  have c2: "c2 = setState (updatedDataSource p True (cn\<lparr>pending := []\<rparr>)) False
                   (cn\<lparr>pending := []\<rparr>)"
    using n by (simp add: c2_def runDeferred_def setStateFromProps_def)
  have u: "updatedDataSource p True (cn\<lparr>pending := []\<rparr>) = updatedDataSource p True cn"
    by (simp add: updatedDataSource_def displayData_def shouldDisplayPartialData_def Let_def)
  have l3: "commits c2 = commits c1 @ more @ [(updatedDataSource p True cn, False)]"
    using n by (simp add: c2 u setState_def)
  have l4: "displayData p True cn = immutableData p"
    by (simp add: displayData_def shouldDisplayPartialData_def)
  have l5: "\<not> interactionOngoing c2"
    by (simp add: c2 setState_def)
  have l6: "displayData p fin (foldl step c2 es) = immutableData p" for es fin
    using steps_keep_finished[OF l5, of es]
    by (simp add: displayData_def shouldDisplayPartialData_def)
  show ?thesis
    unfolding Let_def c1_def[symmetric] cn_def[symmetric] c2_def[symmetric]
    using l1 l2 l3 l4 l5 l6 n(2) by blast
qed

theorem partial_then_full_never_back_witness:
  "canSetState liveComponent \<and>
   ge0 (rowsDuringInteraction ((basicProps threeRows)\<lparr>rowsDuringInteraction := NNumber 2\<rparr>)) \<and>
   map (\<lambda>(ds, ongoing). (rowIdentities ds, ongoing))
     (commits (runDeferred (componentWillReceiveProps
        ((basicProps threeRows)\<lparr>rowsDuringInteraction := NNumber 2\<rparr>) liveComponent))) =
     [([[KIdx 0, KIdx 1]], True), ([[KIdx 0, KIdx 1, KIdx 2]], False)] \<and>
   displayData ((basicProps threeRows)\<lparr>rowsDuringInteraction := NNumber 2\<rparr>) False
     (step (runDeferred (componentWillReceiveProps
        ((basicProps threeRows)\<lparr>rowsDuringInteraction := NNumber 2\<rparr>) liveComponent))
        (ReceiveProps ((basicProps threeRows)\<lparr>rowsDuringInteraction := NNumber 2\<rparr>))) = threeRows"
proof -
  let ?p = "(basicProps threeRows)\<lparr>rowsDuringInteraction := NNumber 2\<rparr>"
  have live: "canSetState liveComponent"
    by (simp add: liveComponent_def)
  have ge: "ge0 (rowsDuringInteraction ?p)"
    by simp
  have e: "pending liveComponent = []"
    by (simp add: liveComponent_def initialComponent_def)
  have s: "slice0 (IList [Leaf (LNum 1), Leaf (LNum 2), Leaf (LNum 3)]) (NNumber 2) =
             IList [Leaf (LNum 1), Leaf (LNum 2)]"
    by (simp add: slice0_def numeral_2_eq_2)
  have k2: "getKeys (IList [Leaf (LNum 1), Leaf (LNum 2)]) = [KIdx 0, KIdx 1]"
    by (simp add: getKeys_def numeral_2_eq_2 upt_rec)
  have k3: "getKeys (IList [Leaf (LNum 1), Leaf (LNum 2), Leaf (LNum 3)]) =
              [KIdx 0, KIdx 1, KIdx 2]"
    by (simp add: getKeys_def numeral_2_eq_2 numeral_3_eq_3 upt_rec)
  have c: "map (\<lambda>(ds, ongoing). (rowIdentities ds, ongoing))
     (commits (runDeferred (componentWillReceiveProps ?p liveComponent))) =
     [([[KIdx 0, KIdx 1]], True), ([[KIdx 0, KIdx 1, KIdx 2]], False)]"
    by (simp add: liveComponent_def initialComponent_def basicProps_def threeRows_def
          componentWillReceiveProps_def setStateFromPropsAfterInteraction_def
          setStateFromProps_def setState_def updatedDataSource_def displayData_def
          shouldDisplayPartialData_def cloneWithRows_def cloneWithRowsAndSections_def
          runDeferred_def s k2 k3 Let_def)
  from partial_then_full_never_back[OF live ge]
  have "\<forall>es fin. displayData ?p fin
          (foldl step (runDeferred ((runDeferred ^^ length (pending liveComponent))
             (componentWillReceiveProps ?p liveComponent))) es) = immutableData ?p"
    unfolding Let_def by blast
  then have "\<forall>es fin. displayData ?p fin
          (foldl step (runDeferred (componentWillReceiveProps ?p liveComponent)) es)
        = immutableData ?p"
    unfolding e by simp
  then have "displayData ?p False
          (foldl step (runDeferred (componentWillReceiveProps ?p liveComponent)) [ReceiveProps ?p])
        = immutableData ?p"
    by blast
  then have d: "displayData ?p False
          (step (runDeferred (componentWillReceiveProps ?p liveComponent)) (ReceiveProps ?p))
        = threeRows"
    by (simp add: basicProps_def)
  show ?thesis using live ge c d by blast
qed

section \<open>Properties of the data source\<close>

lemma map_of_structures:
  "map_of (map (\<lambda>(k, v). (k, structure_of v)) es) k = map_option structure_of (map_of es k)"
  by (induction es) auto

lemma is_iff_structure_list:
  assumes "\<And>x y. x \<in> set xs \<Longrightarrow> wellFormed x \<Longrightarrow> wellFormed y \<Longrightarrow>
             immutable_is x y = (structure_of x = structure_of y)"
    and "list_all wellFormed xs" "list_all wellFormed ys"
  shows "list_all2 immutable_is xs ys = (map structure_of xs = map structure_of ys)"
  using assms
proof (induction xs arbitrary: ys)
  case Nil
  then show ?case by auto
next
  case (Cons x xs)
  show ?case
  proof (cases ys)
    case Nil
    then show ?thesis by simp
  next
    case (Cons y ys')
    have "list_all2 immutable_is xs ys' = (map structure_of xs = map structure_of ys')"
      using Cons.prems Cons.IH[of ys'] \<open>ys = y # ys'\<close> by simp
    moreover have "immutable_is x y = (structure_of x = structure_of y)"
      using Cons.prems \<open>ys = y # ys'\<close> by simp
    ultimately show ?thesis using \<open>ys = y # ys'\<close> by simp
  qed
qed

lemma is_iff_structure_ordered:
  assumes "\<And>k u y. (k, u) \<in> set es \<Longrightarrow> wellFormed u \<Longrightarrow> wellFormed y \<Longrightarrow>
             immutable_is u y = (structure_of u = structure_of y)"
    and "list_all (\<lambda>(k, v). wellFormed v) es" "list_all (\<lambda>(k, v). wellFormed v) fs"
  shows "list_all2 (\<lambda>e f. fst e = fst f \<and> immutable_is (snd e) (snd f)) es fs =
         (map (\<lambda>(k, v). (k, structure_of v)) es = map (\<lambda>(k, v). (k, structure_of v)) fs)"
  using assms
proof (induction es arbitrary: fs)
  case Nil
  then show ?case by auto
next
  case (Cons e es)
  show ?case
  proof (cases fs)
    case Nil
    then show ?thesis by simp
  next
    case (Cons f fs')
    obtain k u where e: "e = (k, u)" by (cases e)
    obtain k' v where f: "f = (k', v)" by (cases f)
    have "list_all2 (\<lambda>e f. fst e = fst f \<and> immutable_is (snd e) (snd f)) es fs' =
         (map (\<lambda>(k, v). (k, structure_of v)) es = map (\<lambda>(k, v). (k, structure_of v)) fs')"
    proof (rule Cons.IH)
      show "immutable_is u y = (structure_of u = structure_of y)"
        if "(k, u) \<in> set es" "wellFormed u" "wellFormed y" for k u y
        using that Cons.prems(1)[of k u y] by simp
      show "list_all (\<lambda>(k, v). wellFormed v) es" using Cons.prems(2) by simp
      show "list_all (\<lambda>(k, v). wellFormed v) fs'"
        using Cons.prems(3) \<open>fs = f # fs'\<close> by simp
    qed
    moreover have "immutable_is u v = (structure_of u = structure_of v)"
      using Cons.prems(1)[of k u v] Cons.prems(2,3) \<open>fs = f # fs'\<close> e f by simp
    ultimately show ?thesis using \<open>fs = f # fs'\<close> e f by simp
  qed
qed

lemma is_iff_structure_unordered:
  assumes IH: "\<And>k u y. (k, u) \<in> set es \<Longrightarrow> wellFormed u \<Longrightarrow> wellFormed y \<Longrightarrow>
             immutable_is u y = (structure_of u = structure_of y)"
    and wes: "list_all (\<lambda>(k, v). wellFormed v) es" and wfs: "list_all (\<lambda>(k, v). wellFormed v) fs"
    and des: "distinct (map fst es)" and dfs: "distinct (map fst fs)"
  shows "(length es = length fs \<and>
          list_all (\<lambda>(k, v). case map_of es k of None \<Rightarrow> False | Some u \<Rightarrow> immutable_is u v) fs) =
         (map_of (map (\<lambda>(k, v). (k, structure_of v)) es) =
          map_of (map (\<lambda>(k, v). (k, structure_of v)) fs))"
    (is "?L = ?R")
proof
  assume L: ?L
  have sub: "set (map fst fs) \<subseteq> set (map fst es)"
  proof
    fix k assume "k \<in> set (map fst fs)"
    then obtain v where kv: "(k, v) \<in> set fs" by auto
    with L have "map_of es k \<noteq> None" by (auto simp: list_all_iff split: option.splits)
    then show "k \<in> set (map fst es)" by (simp add: map_of_eq_None_iff)
  qed
  have "card (set (map fst fs)) = card (set (map fst es))"
    using L distinct_card[OF des] distinct_card[OF dfs] by simp
  then have keys: "set (map fst fs) = set (map fst es)"
    using sub by (simp add: card_subset_eq)
  show ?R
  proof
    fix k
    show "map_of (map (\<lambda>(k, v). (k, structure_of v)) es) k =
          map_of (map (\<lambda>(k, v). (k, structure_of v)) fs) k"
    proof (cases "map_of fs k")
      case None
      then have "k \<notin> set (map fst fs)" by (simp add: map_of_eq_None_iff)
      then have "map_of es k = None" using keys by (simp add: map_of_eq_None_iff)
      then show ?thesis using None by (simp add: map_of_structures)
    next
      case (Some v)
      then have kv: "(k, v) \<in> set fs" by (rule map_of_SomeD)
      with L obtain u where u: "map_of es k = Some u" "immutable_is u v"
        by (auto simp: list_all_iff split: option.splits)
      have "(k, u) \<in> set es" using u(1) by (rule map_of_SomeD)
      moreover have "wellFormed u" using wes \<open>(k, u) \<in> set es\<close> by (auto simp: list_all_iff)
      moreover have "wellFormed v" using wfs kv by (auto simp: list_all_iff)
      ultimately have "structure_of u = structure_of v" using IH u(2) by blast
      then show ?thesis using Some u(1) by (simp add: map_of_structures)
    qed
  qed
next
  assume R: ?R
  have eq: "map_option structure_of (map_of es k) = map_option structure_of (map_of fs k)" for k
    using fun_cong[OF R, of k] by (simp add: map_of_structures)
  have keys: "set (map fst es) = set (map fst fs)"
  proof -
    have "(map_of es k = None) = (map_of fs k = None)" for k
      using eq[of k] by (metis option.map_disc_iff)
    then have "dom (map_of es) = dom (map_of fs)" by (auto simp: dom_def)
    then show ?thesis by (simp add: dom_map_of_conv_image_fst)
  qed
  have len: "length es = length fs"
    using keys des dfs by (metis distinct_card length_map)
  have "case map_of es k of None \<Rightarrow> False | Some u \<Rightarrow> immutable_is u v" if kv: "(k, v) \<in> set fs" for k v
  proof -
    have fv: "map_of fs k = Some v" using dfs kv by simp
    with eq[of k] obtain u where u: "map_of es k = Some u" "structure_of u = structure_of v"
      by (cases "map_of es k") auto
    have "(k, u) \<in> set es" using u(1) by (rule map_of_SomeD)
    moreover have "wellFormed u" using wes \<open>(k, u) \<in> set es\<close> by (auto simp: list_all_iff)
    moreover have "wellFormed v" using wfs kv by (auto simp: list_all_iff)
    ultimately have "immutable_is u v" using IH u(2) by blast
    then show ?thesis using u(1) by simp
  qed
  then show ?L using len by (auto simp: list_all_iff)
qed

lemma immutable_is_iff_structure:
  "wellFormed a \<Longrightarrow> wellFormed b \<Longrightarrow> immutable_is a b = (structure_of a = structure_of b)"
proof (induction a arbitrary: b)
  case (Leaf l)
  then show ?case by (cases b) simp_all
next
  case (IList xs)
  show ?case
  proof (cases b)
    case (IList ys)
    then show ?thesis
      using is_iff_structure_list[of xs ys] IList.IH IList.prems by simp
  qed simp_all
next
  case (IMap es)
  show ?case
  proof (cases b)
    case b: (IMap fs)
    have "\<And>k u y. (k, u) \<in> set es \<Longrightarrow> wellFormed u \<Longrightarrow> wellFormed y \<Longrightarrow>
             immutable_is u y = (structure_of u = structure_of y)"
      using IMap.IH by force
    then show ?thesis
      using is_iff_structure_unordered[of es fs] IMap.prems b by simp
  qed simp_all
next
  case (IOrderedMap es)
  show ?case
  proof (cases b)
    case b: (IOrderedMap fs)
    have "\<And>k u y. (k, u) \<in> set es \<Longrightarrow> wellFormed u \<Longrightarrow> wellFormed y \<Longrightarrow>
             immutable_is u y = (structure_of u = structure_of y)"
      using IOrderedMap.IH by force
    then show ?thesis
      using is_iff_structure_ordered[of es fs] IOrderedMap.prems b by simp
  qed simp_all
qed


lemma wellFormed_getValueFromKey: "wellFormed C \<Longrightarrow> wellFormed (getValueFromKey j C)"
proof (cases "map_of (entries C) j")
  case None
  then show ?thesis by (simp add: getValueFromKey_def)
next
  case (Some v)
  assume wf: "wellFormed C"
  from Some have mem: "(j, v) \<in> set (entries C)" by (rule map_of_SomeD)
  have "wellFormed v"
  proof (cases C)
    case (Leaf l)
    with mem show ?thesis by simp
  next
    case (IList xs)
    with mem have "v \<in> set xs" by (auto dest: set_zip_rightD)
    with wf IList show ?thesis by (simp add: list_all_iff)
  next
    case (IMap es)
    with mem wf show ?thesis by (auto simp: list_all_iff)
  next
    case (IOrderedMap es)
    with mem wf show ?thesis by (auto simp: list_all_iff)
  qed
  then show ?thesis using Some by (simp add: getValueFromKey_def)
qed

lemma structure_entries:
  "structure_of C' = structure_of C \<Longrightarrow>
   map_option structure_of (map_of (entries C') j) = map_option structure_of (map_of (entries C) j)"
proof (cases C; cases C')
  fix xs ys
  assume s: "structure_of C' = structure_of C" and C: "C = IList xs" and C': "C' = IList ys"
  then have m: "map structure_of ys = map structure_of xs" by simp
  then have len: "length ys = length xs" by (rule map_eq_imp_length_eq)
  have z: "map (\<lambda>(k, v). (k, structure_of v)) (zip ks zs) = zip ks (map structure_of zs)"
    for ks :: "key list" and zs
    by (induction ks zs rule: list_induct2') simp_all
  have "map_of (map (\<lambda>(k, v). (k, structure_of v)) (entries C')) j =
        map_of (map (\<lambda>(k, v). (k, structure_of v)) (entries C)) j"
    using m len by (simp add: C C' z)
  then show ?thesis by (simp only: map_of_structures)
next
  fix es fs
  assume s: "structure_of C' = structure_of C" and C: "C = IMap es" and C': "C' = IMap fs"
  then have "map_of (map (\<lambda>(k, v). (k, structure_of v)) fs) j =
             map_of (map (\<lambda>(k, v). (k, structure_of v)) es) j" by simp
  then show ?thesis by (simp add: C C' map_of_structures)
next
  fix es fs
  assume s: "structure_of C' = structure_of C" and C: "C = IOrderedMap es"
    and C': "C' = IOrderedMap fs"
  then have "map_of (map (\<lambda>(k, v). (k, structure_of v)) fs) j =
             map_of (map (\<lambda>(k, v). (k, structure_of v)) es) j" by simp
  then show ?thesis by (simp add: C C' map_of_structures)
qed simp_all

lemma structure_getValueFromKey:
  "structure_of C' = structure_of C \<Longrightarrow>
   structure_of (getValueFromKey j C') = structure_of (getValueFromKey j C)"
  using structure_entries[of C' C j]
  by (cases "map_of (entries C') j"; cases "map_of (entries C) j")
     (simp_all add: getValueFromKey_def)

lemma structure_keys:
  "structure_of C' = structure_of C \<Longrightarrow> set (getKeys C') = set (getKeys C)"
proof -
  assume s: "structure_of C' = structure_of C"
  have "(map_of (entries C') j = None) = (map_of (entries C) j = None)" for j
    using structure_entries[OF s, of j] by (metis option.map_disc_iff)
  then have "dom (map_of (entries C')) = dom (map_of (entries C))" by (auto simp: dom_def)
  then show ?thesis by (simp add: getKeys_def dom_map_of_conv_image_fst)
qed

lemma rowIsDirty_flat:
  "j \<in> set (getKeys C) \<Longrightarrow>
   rowIsDirty (cloneWithRows ds0 C (getKeys C)) (IMap [(KStr ''s1'', C')]) (KStr ''s1'') j =
     rowHasChanged (getValueFromKey j C) (getValueFromKey j C')"
  by (simp add: rowIsDirty_def cloneWithRows_def cloneWithRowsAndSections_def getRowData_def
        getValueFromKey_def[of "KStr ''s1''"])

lemma dirtyRows_flat:
  "set (getKeys C') \<subseteq> set (getKeys C) \<Longrightarrow>
   dirtyRows (cloneWithRows (cloneWithRows ds0 C (getKeys C)) C' (getKeys C')) =
     [map (\<lambda>j. rowHasChanged (getValueFromKey j C) (getValueFromKey j C')) (getKeys C')]"
proof -
  assume sub: "set (getKeys C') \<subseteq> set (getKeys C)"
  have "map (rowIsDirty (cloneWithRows ds0 C (getKeys C)) (IMap [(KStr ''s1'', C')]) (KStr ''s1''))
          (getKeys C') =
        map (\<lambda>j. rowHasChanged (getValueFromKey j C) (getValueFromKey j C')) (getKeys C')"
    using sub by (intro map_cong refl rowIsDirty_flat) auto
  then show ?thesis
    by (simp add: cloneWithRows_def[of "cloneWithRows ds0 C (getKeys C)"]
          cloneWithRowsAndSections_def)
qed

text \<open>
  Claim C5. The \<^verbatim>\<open>rowHasChanged\<close> callback of the data source is the negation of
  \<^verbatim>\<open>Immutable.is\<close>, and on well-formed values \<^verbatim>\<open>Immutable.is\<close> holds exactly when the two
  values have the same structure: the callback is true exactly when its arguments are
  structurally unequal. Hence, for a flat data source cloned from a collection \<open>C\<close> and
  then from \<open>C'\<close> whose keys \<open>C\<close> has too, the dirty flag of each row says whether its old
  and new value are structurally unequal; no row is dirty when \<open>C'\<close> is structurally equal
  to \<open>C\<close>, be it a different value (an unordered map with another iteration order); and
  when \<open>C'\<close> has the keys of \<open>C\<close> and a structurally different value under the key \<open>k\<close>
  and nowhere else, the rows with key \<open>k\<close> are the dirty ones.
\<close>

theorem rowHasChanged_iff_unequal:
  "wellFormed prev \<Longrightarrow> wellFormed next \<Longrightarrow> wellFormed C \<Longrightarrow> wellFormed C' \<Longrightarrow>
   (rowHasChanged prev next \<longleftrightarrow> structure_of prev \<noteq> structure_of next) \<and>
   (set (getKeys C') \<subseteq> set (getKeys C) \<longrightarrow>
      dirtyRows (cloneWithRows (cloneWithRows ds0 C (getKeys C)) C' (getKeys C')) =
        [map (\<lambda>j. structure_of (getValueFromKey j C) \<noteq> structure_of (getValueFromKey j C'))
           (getKeys C')]) \<and>
   (structure_of C' = structure_of C \<longrightarrow>
      dirtyRows (cloneWithRows (cloneWithRows ds0 C (getKeys C)) C' (getKeys C')) =
        [map (\<lambda>j. False) (getKeys C')]) \<and>
   (getKeys C' = getKeys C \<and>
    structure_of (getValueFromKey k C') \<noteq> structure_of (getValueFromKey k C) \<and>
    (\<forall>j. j \<noteq> k \<longrightarrow> structure_of (getValueFromKey j C') = structure_of (getValueFromKey j C)) \<longrightarrow>
      dirtyRows (cloneWithRows (cloneWithRows ds0 C (getKeys C)) C' (getKeys C')) =
        [map (\<lambda>j. j = k) (getKeys C)])"
proof -
  assume wf: "wellFormed prev" "wellFormed next" and wC: "wellFormed C" and wC': "wellFormed C'"
  have a: "rowHasChanged prev next \<longleftrightarrow> structure_of prev \<noteq> structure_of next"
    using wf by (simp add: rowHasChanged_def immutable_is_iff_structure)
  have row: "rowHasChanged (getValueFromKey j C) (getValueFromKey j C') =
             (structure_of (getValueFromKey j C) \<noteq> structure_of (getValueFromKey j C'))" for j
    using wC wC'
    by (simp add: rowHasChanged_def immutable_is_iff_structure wellFormed_getValueFromKey)
  have b: "dirtyRows (cloneWithRows (cloneWithRows ds0 C (getKeys C)) C' (getKeys C')) =
        [map (\<lambda>j. structure_of (getValueFromKey j C) \<noteq> structure_of (getValueFromKey j C'))
           (getKeys C')]"
    if "set (getKeys C') \<subseteq> set (getKeys C)"
    using dirtyRows_flat[OF that, of ds0] by (simp add: row)
  have c: "dirtyRows (cloneWithRows (cloneWithRows ds0 C (getKeys C)) C' (getKeys C')) =
        [map (\<lambda>j. False) (getKeys C')]"
    if s: "structure_of C' = structure_of C"
  proof -
    have "set (getKeys C') \<subseteq> set (getKeys C)" using structure_keys[OF s] by simp
    from b[OF this] show ?thesis by (simp add: structure_getValueFromKey[OF s])
  qed
  have d: "dirtyRows (cloneWithRows (cloneWithRows ds0 C (getKeys C)) C' (getKeys C')) =
        [map (\<lambda>j. j = k) (getKeys C)]"
    if "getKeys C' = getKeys C"
       "structure_of (getValueFromKey k C') \<noteq> structure_of (getValueFromKey k C)"
       "\<forall>j. j \<noteq> k \<longrightarrow> structure_of (getValueFromKey j C') = structure_of (getValueFromKey j C)"
  proof -
    have "(structure_of (getValueFromKey j C) \<noteq> structure_of (getValueFromKey j C')) = (j = k)"
      for j
      using that(2,3) by metis
    moreover have "set (getKeys C') \<subseteq> set (getKeys C)" using that(1) by simp
    ultimately show ?thesis using b that(1) by simp
  qed
  show ?thesis using a b c d by blast
qed

theorem rowHasChanged_iff_unequal_witness:
  "wellFormed (IMap [(KStr ''x'', Leaf (LNum 1)), (KStr ''y'', Leaf (LNum 2))]) \<and>
   wellFormed (IMap [(KStr ''y'', Leaf (LNum 2)), (KStr ''x'', Leaf (LNum 1))]) \<and>
   IMap [(KStr ''y'', Leaf (LNum 2)), (KStr ''x'', Leaf (LNum 1))] \<noteq>
     IMap [(KStr ''x'', Leaf (LNum 1)), (KStr ''y'', Leaf (LNum 2))] \<and>
   structure_of (IMap [(KStr ''y'', Leaf (LNum 2)), (KStr ''x'', Leaf (LNum 1))]) =
     structure_of (IMap [(KStr ''x'', Leaf (LNum 1)), (KStr ''y'', Leaf (LNum 2))]) \<and>
   \<not> rowHasChanged (IMap [(KStr ''x'', Leaf (LNum 1)), (KStr ''y'', Leaf (LNum 2))])
                   (IMap [(KStr ''y'', Leaf (LNum 2)), (KStr ''x'', Leaf (LNum 1))]) \<and>
   dirtyRows (cloneWithRows
       (cloneWithRows newDataSource
          (IMap [(KStr ''x'', Leaf (LNum 1)), (KStr ''y'', Leaf (LNum 2))])
          (getKeys (IMap [(KStr ''x'', Leaf (LNum 1)), (KStr ''y'', Leaf (LNum 2))])))
       (IMap [(KStr ''y'', Leaf (LNum 2)), (KStr ''x'', Leaf (LNum 1))])
       (getKeys (IMap [(KStr ''y'', Leaf (LNum 2)), (KStr ''x'', Leaf (LNum 1))]))) =
     [[False, False]] \<and>
   dirtyRows (cloneWithRows
       (cloneWithRows newDataSource
          (IMap [(KStr ''x'', Leaf (LNum 1)), (KStr ''y'', Leaf (LNum 2))])
          (getKeys (IMap [(KStr ''x'', Leaf (LNum 1)), (KStr ''y'', Leaf (LNum 2))])))
       (IMap [(KStr ''x'', Leaf (LNum 1)), (KStr ''y'', Leaf (LNum 5))])
       (getKeys (IMap [(KStr ''x'', Leaf (LNum 1)), (KStr ''y'', Leaf (LNum 5))]))) =
     [[False, True]]"
proof -
  let ?C = "IMap [(KStr ''x'', Leaf (LNum 1)), (KStr ''y'', Leaf (LNum 2))]"
  let ?C' = "IMap [(KStr ''y'', Leaf (LNum 2)), (KStr ''x'', Leaf (LNum 1))]"
  have w: "wellFormed ?C" "wellFormed ?C'" by simp_all
  have ne: "?C' \<noteq> ?C" by simp
  have s: "structure_of ?C' = structure_of ?C" by (auto simp: fun_eq_iff)
  from rowHasChanged_iff_unequal[OF w(1) w(2) w(1) w(2), of newDataSource "KStr ''x''"] s
  have "\<not> rowHasChanged ?C ?C'"
    and "dirtyRows (cloneWithRows (cloneWithRows newDataSource ?C (getKeys ?C)) ?C' (getKeys ?C')) =
           [map (\<lambda>j. False) (getKeys ?C')]"
    by simp_all
  note first = this
  let ?D = "IMap [(KStr ''x'', Leaf (LNum 1)), (KStr ''y'', Leaf (LNum 5))]"
  have wD: "wellFormed ?D" by simp
  have keys: "getKeys ?D = getKeys ?C" by (simp add: getKeys_def)
  have changed: "structure_of (getValueFromKey (KStr ''y'') ?D) \<noteq>
                 structure_of (getValueFromKey (KStr ''y'') ?C)"
    by (simp add: getValueFromKey_def)
  have same: "\<forall>j. j \<noteq> KStr ''y'' \<longrightarrow>
                structure_of (getValueFromKey j ?D) = structure_of (getValueFromKey j ?C)"
    by (simp add: getValueFromKey_def)
  from rowHasChanged_iff_unequal[OF w(1) wD w(1) wD, of newDataSource "KStr ''y''"]
       keys changed same
  have "dirtyRows (cloneWithRows (cloneWithRows newDataSource ?C (getKeys ?C)) ?D (getKeys ?D)) =
          [map (\<lambda>j. j = KStr ''y'') (getKeys ?C)]"
    by blast
  then show ?thesis using first w ne s by (simp add: getKeys_def)
qed

text \<open>
  Claim C6. A derivation on a live component builds the data source with
  \<^verbatim>\<open>cloneWithRowsAndSections\<close> over the display data, its keys and its row identities when
  \<^verbatim>\<open>renderSectionHeader\<close> is set, and with \<^verbatim>\<open>cloneWithRows\<close> over the display data and its
  keys otherwise. The section identities are the keys of the display data in its
  iteration order and the row identities of each section are that section's keys in its
  iteration order: nothing is sorted.
\<close>

theorem sectioned_or_flat_in_iteration_order:
  "canSetState c \<Longrightarrow>
   (let d = displayData p fin c; ds = dataSource (setStateFromProps p fin c) in
      (renderSectionHeader p \<noteq> None \<longrightarrow>
         ds = cloneWithRowsAndSections (dataSource c) d (getKeys d) (getRowIdentities d) \<and>
         dataBlob ds = Some d \<and>
         sectionIdentities ds = map fst (entries d) \<and>
         rowIdentities ds = map (\<lambda>(k, section). map fst (entries section)) (entries d)) \<and>
      (renderSectionHeader p = None \<longrightarrow>
         ds = cloneWithRows (dataSource c) d (getKeys d) \<and>
         dataBlob ds = Some (IMap [(KStr ''s1'', d)]) \<and>
         sectionIdentities ds = [KStr ''s1''] \<and>
         rowIdentities ds = [map fst (entries d)]))"
  by (simp add: Let_def setStateFromProps_def setState_def updatedDataSource_def
        cloneWithRows_def cloneWithRowsAndSections_def getKeys_def getRowIdentities_def)

theorem sectioned_or_flat_in_iteration_order_witness:
  "canSetState liveComponent \<and>
   sectionIdentities (dataSource (setStateFromProps
       ((basicProps twoSections)\<lparr>renderSectionHeader := Some 1\<rparr>) False liveComponent)) =
     [KStr ''b'', KStr ''a''] \<and>
   rowIdentities (dataSource (setStateFromProps
       ((basicProps twoSections)\<lparr>renderSectionHeader := Some 1\<rparr>) False liveComponent)) =
     [[KIdx 0, KIdx 1], [KIdx 0]] \<and>
   rowIdentities (dataSource (setStateFromProps (basicProps twoSections) False liveComponent)) =
     [[KStr ''b'', KStr ''a'']]"
  using sectioned_or_flat_in_iteration_order
          [of liveComponent "(basicProps twoSections)\<lparr>renderSectionHeader := Some 1\<rparr>" False]
        sectioned_or_flat_in_iteration_order
          [of liveComponent "basicProps twoSections" False]
  by (simp add: liveComponent_def initialComponent_def basicProps_def twoSections_def Let_def
        displayData_def shouldDisplayPartialData_def setStateFromProps_def setState_def
        updatedDataSource_def cloneWithRows_def cloneWithRowsAndSections_def getKeys_def
        getRowIdentities_def numeral_2_eq_2 upt_rec)

section \<open>Properties of rendering\<close>

lemma set0_unitary: "\<exists>x. listData st = IList [x] \<Longrightarrow>
   listData (setListDataFromProps q st) = IList [fromJS3 q]"
  by (auto simp: setListDataFromProps_def)

lemma isEmptyListView_isEmpty: "isEmpty d \<Longrightarrow> isEmptyListView d e"
  by (simp add: isEmptyListView_def)

lemma mount_EmptyListView:
  "mountElement host lvd (EmptyListViewEl q) =
     Some (ImmutableListViewEl
       ((EmptyListView_defaultProps lvd q)
          \<lparr>renderEmpty := None, renderEmptyInList := None, renderSectionHeader := None,
            emptyText := None,
            renderRow := (case renderRow q of None \<Rightarrow> Some EmptyTextRow | Some r \<Rightarrow> Some r),
            immutableData := IList [fromJS3 (EmptyListView_defaultProps lvd q)]\<rparr>))"
  by (simp add: EmptyListView_render_def EmptyListView_passThroughProps_def Let_def
        set0_unitary initialEmptyState_def UNITARY_LIST_def EmptyListView_defaultProps_def)

text \<open>
  The empty string is a string, but it is falsy: with an empty collection and
  \<^verbatim>\<open>renderEmptyInList = ""\<close> (and no \<^verbatim>\<open>renderEmpty\<close>) the list widget is rendered, not the
  placeholder.
\<close>

theorem empty_string_in_list_renders_list_widget:
  "isEmpty (immutableData emptyStringInList) \<and>
   renderEmptyInList emptyStringInList = Some (RString '''') \<and>
   renderEmpty emptyStringInList = None \<and>
   \<not> rendersPlaceholder (ImmutableListView_render noHost emptyStringInList liveComponent) \<and>
   rendersListWidget (ImmutableListView_render noHost emptyStringInList liveComponent)"
  by (simp add: emptyStringInList_def basicProps_def isEmpty_def ImmutableListView_render_def
        ImmutableListView_renderEmpty_def)

text \<open>
  Claim C1, amended. Let the input collection be empty. If \<^verbatim>\<open>renderEmptyInList\<close> is a
  non-empty string \<open>s\<close> and \<^verbatim>\<open>renderEmpty\<close> is not set (\<^verbatim>\<open>undefined\<close> or the empty string),
  the output is an \<^verbatim>\<open>EmptyListView\<close> whose \<^verbatim>\<open>emptyText\<close> is \<open>s\<close>; mounted, it shows a list of
  one entry whose row renderer is its own text row, which displays \<open>s\<close>. If both
  \<^verbatim>\<open>renderEmpty\<close> and \<^verbatim>\<open>renderEmptyInList\<close> are truthy, the standalone branch is taken: the
  placeholder is never rendered, a string is rendered as text, a function's renderable
  return value is rendered as it is; the list widget is rendered only when that function
  returns a falsy value.
\<close>

theorem renderEmpty_branches:
  "isEmpty (immutableData p) \<Longrightarrow>
   (\<forall>s. renderEmptyInList p = Some (RString s) \<and> s \<noteq> [] \<and> \<not> truthy (renderEmpty p) \<longrightarrow>
      ImmutableListView_render host p c =
        EmptyListViewEl (p\<lparr>renderRow := None, emptyText := Some s\<rparr>) \<and>
      (\<exists>q. mountElement host lvd (EmptyListViewEl (p\<lparr>renderRow := None, emptyText := Some s\<rparr>)) =
              Some (ImmutableListViewEl q) \<and>
           renderRow q = Some EmptyTextRow \<and> length (entries (immutableData q)) = 1) \<and>
      EmptyListView_renderRow
          (EmptyListView_defaultProps lvd (p\<lparr>renderRow := None, emptyText := Some s\<rparr>)) =
        TextEl None (Some s)) \<and>
   (truthy (renderEmpty p) \<and> truthy (renderEmptyInList p) \<longrightarrow>
      \<not> rendersPlaceholder (ImmutableListView_render host p c) \<and>
      (\<forall>s. renderEmpty p = Some (RString s) \<longrightarrow>
           ImmutableListView_render host p c =
             TextEl (otherProps p ''contentContainerStyle'') (Some s)) \<and>
      (\<forall>f e. renderEmpty p = Some (RFunc f) \<and> host f p = Some e \<longrightarrow>
           ImmutableListView_render host p c = HostEl e) \<and>
      (rendersListWidget (ImmutableListView_render host p c) \<longleftrightarrow>
         (\<exists>f. renderEmpty p = Some (RFunc f) \<and> host f p = None)))"
proof -
  assume e: "isEmpty (immutableData p)"
  have ev: "isEmptyListView (immutableData p) (enableEmptySections p)"
    using e by (rule isEmptyListView_isEmpty)
  have a: "ImmutableListView_render host p c =
             EmptyListViewEl (p\<lparr>renderRow := None, emptyText := Some s\<rparr>)"
    if "renderEmptyInList p = Some (RString s)" "s \<noteq> []" "\<not> truthy (renderEmpty p)" for s
    using that ev by (simp add: ImmutableListView_render_def ImmutableListView_renderEmpty_def)
  have b: "\<exists>q. mountElement host lvd (EmptyListViewEl (p\<lparr>renderRow := None, emptyText := Some s\<rparr>)) =
              Some (ImmutableListViewEl q) \<and>
           renderRow q = Some EmptyTextRow \<and> length (entries (immutableData q)) = 1" for s
    unfolding mount_EmptyListView by simp
  have c: "EmptyListView_renderRow
          (EmptyListView_defaultProps lvd (p\<lparr>renderRow := None, emptyText := Some s\<rparr>)) =
        TextEl None (Some s)" for s
    by (simp add: EmptyListView_renderRow_def EmptyListView_defaultProps_def orDefault_def)
  have d: "\<not> rendersPlaceholder (ImmutableListView_render host p c) \<and>
      (\<forall>s. renderEmpty p = Some (RString s) \<longrightarrow>
           ImmutableListView_render host p c =
             TextEl (otherProps p ''contentContainerStyle'') (Some s)) \<and>
      (\<forall>f e. renderEmpty p = Some (RFunc f) \<and> host f p = Some e \<longrightarrow>
           ImmutableListView_render host p c = HostEl e) \<and>
      (rendersListWidget (ImmutableListView_render host p c) \<longleftrightarrow>
         (\<exists>f. renderEmpty p = Some (RFunc f) \<and> host f p = None))"
    if t: "truthy (renderEmpty p)"
  proof (cases "renderEmpty p")
    case None
    with t show ?thesis by simp
  next
    case (Some r)
    show ?thesis
    proof (cases r)
      case (RString s)
      with Some t ev show ?thesis
        by (simp add: ImmutableListView_render_def ImmutableListView_renderEmpty_def)
    next
      case (RFunc f)
      with Some t ev show ?thesis
        by (cases "host f p")
           (simp_all add: ImmutableListView_render_def ImmutableListView_renderEmpty_def)
    qed
  qed
  show ?thesis using a b c d by blast
qed

theorem renderEmpty_branches_witness:
  "isEmpty (immutableData ((basicProps (IList []))\<lparr>renderEmptyInList := Some (RString ''Nothing here'')\<rparr>)) \<and>
   rendersPlaceholder (ImmutableListView_render noHost
      ((basicProps (IList []))\<lparr>renderEmptyInList := Some (RString ''Nothing here'')\<rparr>) liveComponent) \<and>
   ImmutableListView_render noHost
      ((basicProps (IList []))\<lparr>renderEmptyInList := Some (RString ''Nothing here''),
                                renderEmpty := Some (RString ''Nope'')\<rparr>) liveComponent =
     TextEl None (Some ''Nope'')"
proof -
  let ?p = "(basicProps (IList []))\<lparr>renderEmptyInList := Some (RString ''Nothing here'')\<rparr>"
  let ?q = "(basicProps (IList []))\<lparr>renderEmptyInList := Some (RString ''Nothing here''),
                                renderEmpty := Some (RString ''Nope'')\<rparr>"
  have e1: "isEmpty (immutableData ?p)" by (simp add: basicProps_def isEmpty_def)
  have e2: "isEmpty (immutableData ?q)" by (simp add: basicProps_def isEmpty_def)
  have "ImmutableListView_render noHost ?p liveComponent =
          EmptyListViewEl (?p\<lparr>renderRow := None, emptyText := Some ''Nothing here''\<rparr>)"
    using renderEmpty_branches[OF e1, of noHost liveComponent noDefaults]
    by (simp add: basicProps_def)
  moreover have "ImmutableListView_render noHost ?q liveComponent = TextEl None (Some ''Nope'')"
    using renderEmpty_branches[OF e2, of noHost liveComponent noDefaults]
    by (simp add: basicProps_def)
  ultimately show ?thesis using e1 by simp
qed

text \<open>
  Claim C7. The default of \<^verbatim>\<open>renderEmptyInList\<close> is the string "No data.". So when the
  host passes neither \<^verbatim>\<open>renderEmpty\<close> nor \<^verbatim>\<open>renderEmptyInList\<close> and the collection is
  empty, the mounted list view renders an \<^verbatim>\<open>EmptyListView\<close> with \<^verbatim>\<open>emptyText\<close> "No data.";
  mounted in turn, it shows a list of one entry whose row renderer is its own text row,
  which displays "No data.".
\<close>

theorem default_placeholder_text:
  "(renderEmptyInList p = None \<longrightarrow>
      renderEmptyInList (ImmutableListView_defaultProps lvd p) = Some (RString ''No data.'')) \<and>
   (isEmpty (immutableData p) \<and> renderEmpty p = None \<and> renderEmptyInList p = None \<longrightarrow>
      (let placeholderProps =
             (ImmutableListView_defaultProps lvd p)\<lparr>renderRow := None, emptyText := Some ''No data.''\<rparr>
       in mountElement host lvd (ImmutableListViewEl p) = Some (EmptyListViewEl placeholderProps) \<and>
          (\<exists>q. mountElement host lvd (EmptyListViewEl placeholderProps) =
                  Some (ImmutableListViewEl q) \<and>
               renderRow q = Some EmptyTextRow \<and> length (entries (immutableData q)) = 1) \<and>
          EmptyListView_renderRow (EmptyListView_defaultProps lvd placeholderProps) =
            TextEl None (Some ''No data.'')))"
proof -
  have a: "renderEmptyInList (ImmutableListView_defaultProps lvd p) = Some (RString ''No data.'')"
    if "renderEmptyInList p = None"
    using that by (simp add: ImmutableListView_defaultProps_def orDefault_def)
  have b: "mountElement host lvd (ImmutableListViewEl p) =
             Some (EmptyListViewEl ((ImmutableListView_defaultProps lvd p)
                     \<lparr>renderRow := None, emptyText := Some ''No data.''\<rparr>))"
    if "isEmpty (immutableData p)" "renderEmpty p = None" "renderEmptyInList p = None"
  proof -
    let ?d = "ImmutableListView_defaultProps lvd p"
    have "isEmptyListView (immutableData ?d) (enableEmptySections ?d)"
      using that(1) by (simp add: isEmptyListView_isEmpty ImmutableListView_defaultProps_def)
    moreover have "renderEmpty ?d = None"
      using that(2) by (simp add: ImmutableListView_defaultProps_def)
    ultimately show ?thesis
      using a[OF that(3)]
      by (simp add: ImmutableListView_render_def ImmutableListView_renderEmpty_def Let_def)
  qed
  have c: "\<exists>q. mountElement host lvd (EmptyListViewEl (r\<lparr>renderRow := None, emptyText := Some t\<rparr>)) =
                  Some (ImmutableListViewEl q) \<and>
               renderRow q = Some EmptyTextRow \<and> length (entries (immutableData q)) = 1" for r t
    unfolding mount_EmptyListView by simp
  have d: "EmptyListView_renderRow
             (EmptyListView_defaultProps lvd (r\<lparr>renderRow := None, emptyText := Some t\<rparr>)) =
           TextEl None (Some t)" for r t
    by (simp add: EmptyListView_renderRow_def EmptyListView_defaultProps_def orDefault_def)
  show ?thesis unfolding Let_def using a b c d by blast
qed

theorem default_placeholder_text_witness:
  "isEmpty (immutableData (basicProps (IList []))) \<and>
   renderEmpty (basicProps (IList [])) = None \<and>
   renderEmptyInList (basicProps (IList [])) = None \<and>
   map_option (map_option emptyText \<circ> elementProps)
     (mountElement noHost noDefaults (ImmutableListViewEl (basicProps (IList [])))) =
     Some (Some (Some ''No data.'')) \<and>
   map_option rendersPlaceholder
     (mountElement noHost noDefaults (ImmutableListViewEl (basicProps (IList [])))) = Some True"
proof -
  have h: "isEmpty (immutableData (basicProps (IList []))) \<and>
           renderEmpty (basicProps (IList [])) = None \<and>
           renderEmptyInList (basicProps (IList [])) = None"
    by (simp add: basicProps_def isEmpty_def)
  from default_placeholder_text[of "basicProps (IList [])" noDefaults noHost] h
  have "mountElement noHost noDefaults (ImmutableListViewEl (basicProps (IList []))) =
          Some (EmptyListViewEl ((ImmutableListView_defaultProps noDefaults (basicProps (IList [])))
                  \<lparr>renderRow := None, emptyText := Some ''No data.''\<rparr>))"
    unfolding Let_def by blast
  then show ?thesis using h by simp
qed

text \<open>
  \<^verbatim>\<open>EmptyListView.render\<close> also leaves \<^verbatim>\<open>renderSectionHeader\<close> out of the props it passes
  on: a section header renderer given to it does not reach the list component.
\<close>

theorem renderSectionHeader_is_dropped:
  "renderSectionHeader withSectionHeader = Some 7 \<and>
   map_option renderSectionHeader
     (elementProps (EmptyListView_render withSectionHeader
        (setListDataFromProps withSectionHeader initialEmptyState))) = Some None"
  by (simp add: withSectionHeader_def basicProps_def EmptyListView_render_def
        EmptyListView_passThroughProps_def Let_def)

text \<open>
  Claim C8, amended. \<^verbatim>\<open>EmptyListView.render\<close> returns an \<^verbatim>\<open>ImmutableListView\<close> element whose
  \<^verbatim>\<open>immutableData\<close> is the one-row \<^verbatim>\<open>listData\<close> of its state. Four props are left out:
  \<^verbatim>\<open>renderEmpty\<close>, \<^verbatim>\<open>renderEmptyInList\<close>, \<^verbatim>\<open>emptyText\<close> and \<^verbatim>\<open>renderSectionHeader\<close>.
  \<^verbatim>\<open>renderRow\<close> is passed on when given and is the component's own text row otherwise.
  Every other prop is passed on unchanged.
\<close>

theorem EmptyListView_passes_props_through:
  "\<exists>q. EmptyListView_render p st = ImmutableListViewEl q \<and>
       immutableData q = listData st \<and>
       renderEmpty q = None \<and> renderEmptyInList q = None \<and> emptyText q = None \<and>
       renderSectionHeader q = None \<and>
       renderRow q = (case renderRow p of None \<Rightarrow> Some EmptyTextRow | Some r \<Rightarrow> Some r) \<and>
       enableEmptySections q = enableEmptySections p \<and>
       rowsDuringInteraction q = rowsDuringInteraction p \<and>
       sectionHeaderHasChanged q = sectionHeaderHasChanged p \<and>
       otherProps q = otherProps p"
  by (simp add: EmptyListView_render_def EmptyListView_passThroughProps_def Let_def)

theorem EmptyListView_passes_props_through_witness:
  "\<exists>q. EmptyListView_render withSectionHeader (emptyListViewState withSectionHeader []) =
         ImmutableListViewEl q \<and>
       immutableData q = IList [IList [Leaf LUndefined, Leaf LUndefined, Leaf LUndefined]] \<and>
       renderRow q = Some (HostRow 0) \<and> renderSectionHeader q = None"
  using EmptyListView_passes_props_through
          [of withSectionHeader "emptyListViewState withSectionHeader []"]
  by (auto simp: withSectionHeader_def basicProps_def emptyListViewState_def
        setListDataFromProps_def initialEmptyState_def UNITARY_LIST_def fromJS3_def)

lemma listData_foldl:
  "\<exists>x. listData st = IList [x] \<Longrightarrow> qs \<noteq> [] \<Longrightarrow>
   listData (foldl (\<lambda>st q. setListDataFromProps q st) st qs) = IList [fromJS3 (last qs)]"
proof (induction qs arbitrary: st)
  case Nil
  then show ?case by simp
next
  case (Cons q qs)
  have one: "listData (setListDataFromProps q st) = IList [fromJS3 q]"
    using Cons.prems(1) by (rule set0_unitary)
  show ?case
  proof (cases "qs = []")
    case True
    then show ?thesis using one by simp
  next
    case False
    have "\<exists>x. listData (setListDataFromProps q st) = IList [x]" using one by simp
    from Cons.IH[OF this False] show ?thesis using False by simp
  qed
qed

lemma listData_emptyListViewState:
  "listData (emptyListViewState p ps) = IList [fromJS3 (currentProps p ps)]"
  unfolding emptyListViewState_def currentProps_def
  by (rule listData_foldl) (simp_all add: initialEmptyState_def UNITARY_LIST_def)

lemma unitary_not_empty: "\<not> isEmptyListView (IList [fromJS3 q]) e"
  by (simp add: isEmptyListView_def isEmpty_def fromJS3_def)

lemma renderEmpty_not_empty:
  "\<not> isEmptyListView (immutableData p) (enableEmptySections p) \<Longrightarrow>
   ImmutableListView_renderEmpty host p = None"
  by (simp add: ImmutableListView_renderEmpty_def)

lemma render_not_empty:
  "\<not> isEmptyListView (immutableData p) (enableEmptySections p) \<Longrightarrow>
   ImmutableListView_render host p c = ListViewEl (dataSource c) (lv_props.truncate p)"
  by (simp add: ImmutableListView_render_def renderEmpty_not_empty)

lemma renderEmpty_cases:
  "ImmutableListView_renderEmpty host p = Some e \<Longrightarrow>
   (\<exists>a b. e = TextEl a b) \<or> (\<exists>n. e = HostEl n) \<or> (\<exists>x. e = EmptyListViewEl x)"
  by (auto simp: ImmutableListView_renderEmpty_def split: if_splits option.splits renderer.splits)

lemma mountAll_leaf: "mountElement host lvd e = None \<Longrightarrow> mountAll host lvd n e = Some (e, 0)"
  by simp

lemma mount_unitary:
  "mountElement host lvd (ImmutableListViewEl (r\<lparr>immutableData := IList [fromJS3 q]\<rparr>)) =
     Some (ListViewEl
       (dataSource (componentWillMount
          (ImmutableListView_defaultProps lvd (r\<lparr>immutableData := IList [fromJS3 q]\<rparr>))
          initialComponent))
       (lv_props.truncate
          (ImmutableListView_defaultProps lvd (r\<lparr>immutableData := IList [fromJS3 q]\<rparr>))))"
proof -
  let ?d = "ImmutableListView_defaultProps lvd (r\<lparr>immutableData := IList [fromJS3 q]\<rparr>)"
  have "immutableData ?d = IList [fromJS3 q]"
    by (simp add: ImmutableListView_defaultProps_def)
  then have "\<not> isEmptyListView (immutableData ?d) (enableEmptySections ?d)"
    by (simp add: unitary_not_empty)
  then show ?thesis by (simp add: Let_def render_not_empty)
qed

lemma mountAll_placeholder:
  "\<exists>e. mountAll host lvd (Suc (Suc n)) (EmptyListViewEl x) = Some (e, 1) \<and>
       mountElement host lvd e = None"
proof -
  obtain r q where m: "mountElement host lvd (EmptyListViewEl x) =
      Some (ImmutableListViewEl (r\<lparr>immutableData := IList [fromJS3 q]\<rparr>))"
    using mount_EmptyListView[of host lvd x] by blast
  obtain ds lp where l: "mountElement host lvd (ImmutableListViewEl (r\<lparr>immutableData := IList [fromJS3 q]\<rparr>))
      = Some (ListViewEl ds lp)"
    using mount_unitary[where r=r and q=q and host=host and lvd=lvd] by blast
  have "mountAll host lvd n (ListViewEl ds lp) = Some (ListViewEl ds lp, 0)"
    by (rule mountAll_leaf) simp
  then have "mountAll host lvd (Suc n) (ImmutableListViewEl (r\<lparr>immutableData := IList [fromJS3 q]\<rparr>))
      = Some (ListViewEl ds lp, 0)"
    using l by (subst mountAll.simps) simp
  then have "mountAll host lvd (Suc (Suc n)) (EmptyListViewEl x) = Some (ListViewEl ds lp, 1)"
    using m by (subst mountAll.simps) simp
  then show ?thesis by simp
qed

text \<open>
  Claim C9. Whatever props an \<^verbatim>\<open>EmptyListView\<close> was mounted with and has received since,
  it renders an \<^verbatim>\<open>ImmutableListView\<close> whose collection has exactly one entry and whose
  \<^verbatim>\<open>renderEmpty\<close> and \<^verbatim>\<open>renderEmptyInList\<close> props are left out; that inner list view (with
  its default props) does not take the empty branch and renders the list widget.
  Mounting a list view therefore ends at an element of the host platform after at most
  three component renders, with at most one \<^verbatim>\<open>EmptyListView\<close> instance on the way.
\<close>

theorem placeholder_composition_terminates:
  "(let st = emptyListViewState p ps; cur = currentProps p ps in
      \<exists>q. EmptyListView_render cur st = ImmutableListViewEl q \<and>
          length (entries (immutableData q)) = 1 \<and>
          renderEmpty q = None \<and> renderEmptyInList q = None \<and>
          ImmutableListView_renderEmpty host (ImmutableListView_defaultProps lvd q) = None \<and>
          (\<forall>c. ImmutableListView_render host (ImmutableListView_defaultProps lvd q) c =
                 ListViewEl (dataSource c)
                   (lv_props.truncate (ImmutableListView_defaultProps lvd q)))) \<and>
   (\<exists>e k. mountAll host lvd 3 (ImmutableListViewEl r) = Some (e, k) \<and> k \<le> 1 \<and>
          mountElement host lvd e = None \<and> \<not> rendersPlaceholder e)"
proof -
  define st where "st = emptyListViewState p ps"
  define cur where "cur = currentProps p ps"
  define q where "q = (EmptyListView_passThroughProps cur)
      \<lparr>renderRow := (case renderRow (EmptyListView_passThroughProps cur) of
                        None \<Rightarrow> Some EmptyTextRow | Some r \<Rightarrow> Some r),
        immutableData := listData st\<rparr>"
  define d where "d = ImmutableListView_defaultProps lvd q"
  have q1: "EmptyListView_render cur st = ImmutableListViewEl q"
    by (simp add: EmptyListView_render_def q_def Let_def)
  have dat: "immutableData q = IList [fromJS3 cur]"
    by (simp add: q_def st_def cur_def listData_emptyListViewState)
  have q2: "length (entries (immutableData q)) = 1" by (simp add: dat)
  have q3: "renderEmpty q = None \<and> renderEmptyInList q = None"
    by (simp add: q_def EmptyListView_passThroughProps_def)
  have "immutableData d = IList [fromJS3 cur]"
    by (simp add: d_def dat ImmutableListView_defaultProps_def)
  then have ne: "\<not> isEmptyListView (immutableData d) (enableEmptySections d)"
    by (simp add: unitary_not_empty)
  have q4: "ImmutableListView_renderEmpty host d = None"
    using ne by (rule renderEmpty_not_empty)
  have q5: "ImmutableListView_render host d c = ListViewEl (dataSource c) (lv_props.truncate d)" for c
    using ne by (rule render_not_empty)
  have first: "\<exists>q. EmptyListView_render cur st = ImmutableListViewEl q \<and>
          length (entries (immutableData q)) = 1 \<and>
          renderEmpty q = None \<and> renderEmptyInList q = None \<and>
          ImmutableListView_renderEmpty host (ImmutableListView_defaultProps lvd q) = None \<and>
          (\<forall>c. ImmutableListView_render host (ImmutableListView_defaultProps lvd q) c =
                 ListViewEl (dataSource c)
                   (lv_props.truncate (ImmutableListView_defaultProps lvd q)))"
    using q1 q2 q3 q4 q5 unfolding d_def by blast
  define dr where "dr = ImmutableListView_defaultProps lvd r"
  define top where "top = ImmutableListView_render host dr (componentWillMount dr initialComponent)"
  have mt: "mountElement host lvd (ImmutableListViewEl r) = Some top"
    by (simp add: top_def dr_def Let_def)
  have second: "\<exists>e k. mountAll host lvd 3 (ImmutableListViewEl r) = Some (e, k) \<and> k \<le> 1 \<and>
          mountElement host lvd e = None \<and> \<not> rendersPlaceholder e"
  proof (cases "\<exists>x. top = EmptyListViewEl x")
    case True
    then obtain x where x: "top = EmptyListViewEl x" by blast
    from mountAll_placeholder[of host lvd 0 x] obtain e where
      e: "mountAll host lvd 2 top = Some (e, 1)" "mountElement host lvd e = None"
      unfolding x by (auto simp: numeral_2_eq_2)
    have "mountAll host lvd (Suc 2) (ImmutableListViewEl r) = Some (e, 1)"
      using mt e(1) by (subst mountAll.simps) simp
    moreover have "\<not> rendersPlaceholder e" using e(2) by (cases e) (simp_all add: Let_def)
    ultimately show ?thesis using e(2) by (auto simp: numeral_3_eq_3 numeral_2_eq_2)
  next
    case False
    have leaf: "mountElement host lvd top = None \<and> \<not> rendersPlaceholder top"
    proof (cases "ImmutableListView_renderEmpty host dr")
      case None
      then show ?thesis by (simp add: top_def ImmutableListView_render_def)
    next
      case (Some e)
      then have "top = e" by (simp add: top_def ImmutableListView_render_def)
      with renderEmpty_cases[OF Some] False show ?thesis by auto
    qed
    then have "mountAll host lvd 2 top = Some (top, 0)" by (simp add: mountAll_leaf)
    then have "mountAll host lvd (Suc 2) (ImmutableListViewEl r) = Some (top, 0)"
      using mt by (subst mountAll.simps) simp
    then show ?thesis using leaf by (auto simp: numeral_3_eq_3 numeral_2_eq_2)
  qed
  show ?thesis unfolding Let_def st_def[symmetric] cur_def[symmetric] using first second by blast
qed

theorem placeholder_composition_terminates_witness:
  "map_option (\<lambda>(e, k). (rendersListWidget e, k))
     (mountAll noHost noDefaults 3 (ImmutableListViewEl (basicProps (IList [])))) = Some (True, 1) \<and>
   map_option (\<lambda>(e, k). (rendersListWidget e, k))
     (mountAll noHost noDefaults 3 (ImmutableListViewEl (basicProps threeRows))) = Some (True, 0)"
  using placeholder_composition_terminates
          [of "basicProps (IList [])" "[]" noHost noDefaults "basicProps (IList [])"]
        placeholder_composition_terminates
          [of "basicProps (IList [])" "[]" noHost noDefaults "basicProps threeRows"]
  by (simp add: basicProps_def threeRows_def noDefaults_def noHost_def numeral_3_eq_3
        ImmutableListView_defaultProps_def EmptyListView_defaultProps_def orDefault_def
        ImmutableListView_render_def ImmutableListView_renderEmpty_def isEmptyListView_def
        isEmpty_def EmptyListView_render_def EmptyListView_passThroughProps_def
        setListDataFromProps_def initialEmptyState_def UNITARY_LIST_def fromJS3_def Let_def)

text \<open>
  A collection that is not empty can still count as empty for the list view: when the
  host turns \<^verbatim>\<open>enableEmptySections\<close> off and every entry is an empty section, the empty
  branch is taken and the placeholder is rendered.
\<close>

theorem only_empty_sections_renders_placeholder:
  "\<not> isEmpty (immutableData onlyEmptySections) \<and>
   map_option rendersPlaceholder
     (mountElement noHost noDefaults (ImmutableListViewEl onlyEmptySections)) = Some True"
  by (simp add: onlyEmptySections_def basicProps_def isEmpty_def noDefaults_def
        ImmutableListView_defaultProps_def orDefault_def ImmutableListView_render_def
        ImmutableListView_renderEmpty_def isEmptyListView_def Let_def)

text \<open>
  Claim C10, amended. The empty-state check reads \<^verbatim>\<open>immutableData\<close> from the props and
  never the data held in the data source. For every collection that is not empty, unless
  \<^verbatim>\<open>enableEmptySections\<close> is off and every entry of the collection is an empty section,
  the empty branch is not taken and the list widget is rendered with the data source of
  the state, whatever that state is. This is so even with \<^verbatim>\<open>rowsDuringInteraction = 0\<close>
  right after mounting, when an interaction is ongoing and the data source of a flat list
  has no rows.
\<close>

theorem empty_check_reads_props:
  "\<not> isEmpty (immutableData p) \<Longrightarrow>
   enableEmptySections p = Some True \<or>
     \<not> isEmptyListView (immutableData p) (enableEmptySections p) \<Longrightarrow>
   ImmutableListView_renderEmpty host p = None \<and>
   (\<forall>c. ImmutableListView_render host p c = ListViewEl (dataSource c) (lv_props.truncate p)) \<and>
   (rowsDuringInteraction p = NNumber 0 \<and> renderSectionHeader p = None \<longrightarrow>
      (let c = componentWillMount p initialComponent in
         interactionOngoing c \<and>
         dataBlob (dataSource c) = Some (IMap [(KStr ''s1'', slice0 (immutableData p) (NNumber 0))]) \<and>
         rowIdentities (dataSource c) = [[]] \<and>
         rendersListWidget (ImmutableListView_render host p c)))"
proof -
  assume ne: "\<not> isEmpty (immutableData p)"
    and en: "enableEmptySections p = Some True \<or>
             \<not> isEmptyListView (immutableData p) (enableEmptySections p)"
  have nev: "\<not> isEmptyListView (immutableData p) (enableEmptySections p)"
    using ne en by (auto simp: isEmptyListView_def)
  have a: "ImmutableListView_renderEmpty host p = None"
    using nev by (rule renderEmpty_not_empty)
  have b: "ImmutableListView_render host p c = ListViewEl (dataSource c) (lv_props.truncate p)" for c
    using nev by (rule render_not_empty)
  have k: "getKeys (slice0 d (NNumber 0)) = []" for d
    by (simp add: getKeys_def entries_slice0)
  have c: "interactionOngoing (componentWillMount p initialComponent) \<and>
         dataBlob (dataSource (componentWillMount p initialComponent)) =
           Some (IMap [(KStr ''s1'', slice0 (immutableData p) (NNumber 0))]) \<and>
         rowIdentities (dataSource (componentWillMount p initialComponent)) = [[]]"
    if "rowsDuringInteraction p = NNumber 0" "renderSectionHeader p = None"
    using that
    by (simp add: componentWillMount_def setStateFromPropsAfterInteraction_def
          setStateFromProps_def setState_def updatedDataSource_def displayData_def
          shouldDisplayPartialData_def initialComponent_def cloneWithRows_def
          cloneWithRowsAndSections_def k Let_def)
  show ?thesis unfolding Let_def using a b c by simp
qed

theorem empty_check_reads_props_witness:
  "\<not> isEmpty (immutableData ((basicProps threeRows)\<lparr>enableEmptySections := Some True,
                                                     rowsDuringInteraction := NNumber 0\<rparr>)) \<and>
   ImmutableListView_render noHost
      ((basicProps threeRows)\<lparr>enableEmptySections := Some True, rowsDuringInteraction := NNumber 0\<rparr>)
      (componentWillMount
         ((basicProps threeRows)\<lparr>enableEmptySections := Some True, rowsDuringInteraction := NNumber 0\<rparr>)
         initialComponent) =
     ListViewEl
       \<lparr>dataBlob = Some (IMap [(KStr ''s1'', IList [])]), sectionIdentities = [KStr ''s1''],
        rowIdentities = [[]], dirtyRows = [[]]\<rparr>
       (lv_props.truncate
          ((basicProps threeRows)\<lparr>enableEmptySections := Some True,
                                   rowsDuringInteraction := NNumber 0\<rparr>))"
proof -
  let ?p = "(basicProps threeRows)\<lparr>enableEmptySections := Some True, rowsDuringInteraction := NNumber 0\<rparr>"
  have h1: "\<not> isEmpty (immutableData ?p)"
    by (simp add: basicProps_def threeRows_def isEmpty_def)
  have h2: "enableEmptySections ?p = Some True \<or>
            \<not> isEmptyListView (immutableData ?p) (enableEmptySections ?p)"
    by simp
  have ds: "dataSource (componentWillMount ?p initialComponent) =
      \<lparr>dataBlob = Some (IMap [(KStr ''s1'', IList [])]), sectionIdentities = [KStr ''s1''],
        rowIdentities = [[]], dirtyRows = [[]]\<rparr>"
    by (simp add: basicProps_def threeRows_def componentWillMount_def
          setStateFromPropsAfterInteraction_def setStateFromProps_def setState_def
          updatedDataSource_def displayData_def shouldDisplayPartialData_def
          initialComponent_def cloneWithRows_def cloneWithRowsAndSections_def getKeys_def
          slice0_def Let_def)
  from empty_check_reads_props[OF h1 h2, of noHost]
  have "ImmutableListView_render noHost ?p (componentWillMount ?p initialComponent) =
          ListViewEl (dataSource (componentWillMount ?p initialComponent)) (lv_props.truncate ?p)"
    by blast
  then show ?thesis using h1 ds by simp
qed

end
